theory Spec2Isabelle
  imports Main "HOL-Library.Sublist"
begin

section \<open>Strings\<close>

text \<open>
  A Python \<open>str\<close> is a sequence of Unicode code points. It is modelled as the list of
  its code points, so that \<open>len\<close>, slicing and the character classes of \<open>re\<close> count
  what Python counts. \<open>asc\<close> reads a Basic Latin literal.
\<close>

type_synonym ustr = "nat list"

definition asc :: "string \<Rightarrow> ustr" where
  "asc s = map of_char s"

subsection \<open>Character classes of the Unicode database\<close>

text \<open>
  The classes are those of the Unicode character database of CPython 3.11 (Unicode 14.0),
  as inclusive ranges of code points: \<open>str.isspace\<close> (which is also \<open>\s\<close> of \<open>re\<close> and what
  \<open>str.strip()\<close> removes), \<open>str.isdecimal\<close> (which is \<open>\d\<close> of \<open>re\<close> and what \<open>int\<close>
  accepts; the decimal digits come in runs of ten, so that the value of a digit is its
  offset in its run), and \<open>str.isalnum\<close> (which with the underscore is \<open>\w\<close> of \<open>re\<close>).
\<close>

definition in_ranges :: "(nat \<times> nat) list \<Rightarrow> nat \<Rightarrow> bool" where
  "in_ranges rs c = list_ex (\<lambda>(a, b). a \<le> c \<and> c \<le> b) rs"

definition space_ranges :: "(nat \<times> nat) list" where
  "space_ranges = [
     (9, 13), (28, 32), (133, 133), (160, 160), (5760, 5760), (8192, 8202),
     (8232, 8233), (8239, 8239), (8287, 8287), (12288, 12288)]"

definition decimal_ranges :: "(nat \<times> nat) list" where
  "decimal_ranges = [
     (48, 57), (1632, 1641), (1776, 1785), (1984, 1993), (2406, 2415), (2534, 2543),
     (2662, 2671), (2790, 2799), (2918, 2927), (3046, 3055), (3174, 3183), (3302, 3311),
     (3430, 3439), (3558, 3567), (3664, 3673), (3792, 3801), (3872, 3881), (4160, 4169),
     (4240, 4249), (6112, 6121), (6160, 6169), (6470, 6479), (6608, 6617), (6784, 6793),
     (6800, 6809), (6992, 7001), (7088, 7097), (7232, 7241), (7248, 7257), (42528, 42537),
     (43216, 43225), (43264, 43273), (43472, 43481), (43504, 43513), (43600, 43609), (44016, 44025),
     (65296, 65305), (66720, 66729), (68912, 68921), (69734, 69743), (69872, 69881), (69942, 69951),
     (70096, 70105), (70384, 70393), (70736, 70745), (70864, 70873), (71248, 71257), (71360, 71369),
     (71472, 71481), (71904, 71913), (72016, 72025), (72784, 72793), (73040, 73049), (73120, 73129),
     (92768, 92777), (92864, 92873), (93008, 93017), (120782, 120791), (120792, 120801), (120802, 120811),
     (120812, 120821), (120822, 120831), (123200, 123209), (123632, 123641), (125264, 125273), (130032, 130041)]"

definition alnum_ranges :: "(nat \<times> nat) list" where
  "alnum_ranges = [
     (48, 57), (65, 90), (97, 122), (170, 170), (178, 179), (181, 181),
     (185, 186), (188, 190), (192, 214), (216, 246), (248, 705), (710, 721),
     (736, 740), (748, 748), (750, 750), (880, 884), (886, 887), (890, 893),
     (895, 895), (902, 902), (904, 906), (908, 908), (910, 929), (931, 1013),
     (1015, 1153), (1162, 1327), (1329, 1366), (1369, 1369), (1376, 1416), (1488, 1514),
     (1519, 1522), (1568, 1610), (1632, 1641), (1646, 1647), (1649, 1747), (1749, 1749),
     (1765, 1766), (1774, 1788), (1791, 1791), (1808, 1808), (1810, 1839), (1869, 1957),
     (1969, 1969), (1984, 2026), (2036, 2037), (2042, 2042), (2048, 2069), (2074, 2074),
     (2084, 2084), (2088, 2088), (2112, 2136), (2144, 2154), (2160, 2183), (2185, 2190),
     (2208, 2249), (2308, 2361), (2365, 2365), (2384, 2384), (2392, 2401), (2406, 2415),
     (2417, 2432), (2437, 2444), (2447, 2448), (2451, 2472), (2474, 2480), (2482, 2482),
     (2486, 2489), (2493, 2493), (2510, 2510), (2524, 2525), (2527, 2529), (2534, 2545),
     (2548, 2553), (2556, 2556), (2565, 2570), (2575, 2576), (2579, 2600), (2602, 2608),
     (2610, 2611), (2613, 2614), (2616, 2617), (2649, 2652), (2654, 2654), (2662, 2671),
     (2674, 2676), (2693, 2701), (2703, 2705), (2707, 2728), (2730, 2736), (2738, 2739),
     (2741, 2745), (2749, 2749), (2768, 2768), (2784, 2785), (2790, 2799), (2809, 2809),
     (2821, 2828), (2831, 2832), (2835, 2856), (2858, 2864), (2866, 2867), (2869, 2873),
     (2877, 2877), (2908, 2909), (2911, 2913), (2918, 2927), (2929, 2935), (2947, 2947),
     (2949, 2954), (2958, 2960), (2962, 2965), (2969, 2970), (2972, 2972), (2974, 2975),
     (2979, 2980), (2984, 2986), (2990, 3001), (3024, 3024), (3046, 3058), (3077, 3084),
     (3086, 3088), (3090, 3112), (3114, 3129), (3133, 3133), (3160, 3162), (3165, 3165),
     (3168, 3169), (3174, 3183), (3192, 3198), (3200, 3200), (3205, 3212), (3214, 3216),
     (3218, 3240), (3242, 3251), (3253, 3257), (3261, 3261), (3293, 3294), (3296, 3297),
     (3302, 3311), (3313, 3314), (3332, 3340), (3342, 3344), (3346, 3386), (3389, 3389),
     (3406, 3406), (3412, 3414), (3416, 3425), (3430, 3448), (3450, 3455), (3461, 3478),
     (3482, 3505), (3507, 3515), (3517, 3517), (3520, 3526), (3558, 3567), (3585, 3632),
     (3634, 3635), (3648, 3654), (3664, 3673), (3713, 3714), (3716, 3716), (3718, 3722),
     (3724, 3747), (3749, 3749), (3751, 3760), (3762, 3763), (3773, 3773), (3776, 3780),
     (3782, 3782), (3792, 3801), (3804, 3807), (3840, 3840), (3872, 3891), (3904, 3911),
     (3913, 3948), (3976, 3980), (4096, 4138), (4159, 4169), (4176, 4181), (4186, 4189),
     (4193, 4193), (4197, 4198), (4206, 4208), (4213, 4225), (4238, 4238), (4240, 4249),
     (4256, 4293), (4295, 4295), (4301, 4301), (4304, 4346), (4348, 4680), (4682, 4685),
     (4688, 4694), (4696, 4696), (4698, 4701), (4704, 4744), (4746, 4749), (4752, 4784),
     (4786, 4789), (4792, 4798), (4800, 4800), (4802, 4805), (4808, 4822), (4824, 4880),
     (4882, 4885), (4888, 4954), (4969, 4988), (4992, 5007), (5024, 5109), (5112, 5117),
     (5121, 5740), (5743, 5759), (5761, 5786), (5792, 5866), (5870, 5880), (5888, 5905),
     (5919, 5937), (5952, 5969), (5984, 5996), (5998, 6000), (6016, 6067), (6103, 6103),
     (6108, 6108), (6112, 6121), (6128, 6137), (6160, 6169), (6176, 6264), (6272, 6276),
     (6279, 6312), (6314, 6314), (6320, 6389), (6400, 6430), (6470, 6509), (6512, 6516),
     (6528, 6571), (6576, 6601), (6608, 6618), (6656, 6678), (6688, 6740), (6784, 6793),
     (6800, 6809), (6823, 6823), (6917, 6963), (6981, 6988), (6992, 7001), (7043, 7072),
     (7086, 7141), (7168, 7203), (7232, 7241), (7245, 7293), (7296, 7304), (7312, 7354),
     (7357, 7359), (7401, 7404), (7406, 7411), (7413, 7414), (7418, 7418), (7424, 7615),
     (7680, 7957), (7960, 7965), (7968, 8005), (8008, 8013), (8016, 8023), (8025, 8025),
     (8027, 8027), (8029, 8029), (8031, 8061), (8064, 8116), (8118, 8124), (8126, 8126),
     (8130, 8132), (8134, 8140), (8144, 8147), (8150, 8155), (8160, 8172), (8178, 8180),
     (8182, 8188), (8304, 8305), (8308, 8313), (8319, 8329), (8336, 8348), (8450, 8450),
     (8455, 8455), (8458, 8467), (8469, 8469), (8473, 8477), (8484, 8484), (8486, 8486),
     (8488, 8488), (8490, 8493), (8495, 8505), (8508, 8511), (8517, 8521), (8526, 8526),
     (8528, 8585), (9312, 9371), (9450, 9471), (10102, 10131), (11264, 11492), (11499, 11502),
     (11506, 11507), (11517, 11517), (11520, 11557), (11559, 11559), (11565, 11565), (11568, 11623),
     (11631, 11631), (11648, 11670), (11680, 11686), (11688, 11694), (11696, 11702), (11704, 11710),
     (11712, 11718), (11720, 11726), (11728, 11734), (11736, 11742), (11823, 11823), (12293, 12295),
     (12321, 12329), (12337, 12341), (12344, 12348), (12353, 12438), (12445, 12447), (12449, 12538),
     (12540, 12543), (12549, 12591), (12593, 12686), (12690, 12693), (12704, 12735), (12784, 12799),
     (12832, 12841), (12872, 12879), (12881, 12895), (12928, 12937), (12977, 12991), (13312, 19903),
     (19968, 42124), (42192, 42237), (42240, 42508), (42512, 42539), (42560, 42606), (42623, 42653),
     (42656, 42735), (42775, 42783), (42786, 42888), (42891, 42954), (42960, 42961), (42963, 42963),
     (42965, 42969), (42994, 43009), (43011, 43013), (43015, 43018), (43020, 43042), (43056, 43061),
     (43072, 43123), (43138, 43187), (43216, 43225), (43250, 43255), (43259, 43259), (43261, 43262),
     (43264, 43301), (43312, 43334), (43360, 43388), (43396, 43442), (43471, 43481), (43488, 43492),
     (43494, 43518), (43520, 43560), (43584, 43586), (43588, 43595), (43600, 43609), (43616, 43638),
     (43642, 43642), (43646, 43695), (43697, 43697), (43701, 43702), (43705, 43709), (43712, 43712),
     (43714, 43714), (43739, 43741), (43744, 43754), (43762, 43764), (43777, 43782), (43785, 43790),
     (43793, 43798), (43808, 43814), (43816, 43822), (43824, 43866), (43868, 43881), (43888, 44002),
     (44016, 44025), (44032, 55203), (55216, 55238), (55243, 55291), (63744, 64109), (64112, 64217),
     (64256, 64262), (64275, 64279), (64285, 64285), (64287, 64296), (64298, 64310), (64312, 64316),
     (64318, 64318), (64320, 64321), (64323, 64324), (64326, 64433), (64467, 64829), (64848, 64911),
     (64914, 64967), (65008, 65019), (65136, 65140), (65142, 65276), (65296, 65305), (65313, 65338),
     (65345, 65370), (65382, 65470), (65474, 65479), (65482, 65487), (65490, 65495), (65498, 65500),
     (65536, 65547), (65549, 65574), (65576, 65594), (65596, 65597), (65599, 65613), (65616, 65629),
     (65664, 65786), (65799, 65843), (65856, 65912), (65930, 65931), (66176, 66204), (66208, 66256),
     (66273, 66299), (66304, 66339), (66349, 66378), (66384, 66421), (66432, 66461), (66464, 66499),
     (66504, 66511), (66513, 66517), (66560, 66717), (66720, 66729), (66736, 66771), (66776, 66811),
     (66816, 66855), (66864, 66915), (66928, 66938), (66940, 66954), (66956, 66962), (66964, 66965),
     (66967, 66977), (66979, 66993), (66995, 67001), (67003, 67004), (67072, 67382), (67392, 67413),
     (67424, 67431), (67456, 67461), (67463, 67504), (67506, 67514), (67584, 67589), (67592, 67592),
     (67594, 67637), (67639, 67640), (67644, 67644), (67647, 67669), (67672, 67702), (67705, 67742),
     (67751, 67759), (67808, 67826), (67828, 67829), (67835, 67867), (67872, 67897), (67968, 68023),
     (68028, 68047), (68050, 68096), (68112, 68115), (68117, 68119), (68121, 68149), (68160, 68168),
     (68192, 68222), (68224, 68255), (68288, 68295), (68297, 68324), (68331, 68335), (68352, 68405),
     (68416, 68437), (68440, 68466), (68472, 68497), (68521, 68527), (68608, 68680), (68736, 68786),
     (68800, 68850), (68858, 68899), (68912, 68921), (69216, 69246), (69248, 69289), (69296, 69297),
     (69376, 69415), (69424, 69445), (69457, 69460), (69488, 69505), (69552, 69579), (69600, 69622),
     (69635, 69687), (69714, 69743), (69745, 69746), (69749, 69749), (69763, 69807), (69840, 69864),
     (69872, 69881), (69891, 69926), (69942, 69951), (69956, 69956), (69959, 69959), (69968, 70002),
     (70006, 70006), (70019, 70066), (70081, 70084), (70096, 70106), (70108, 70108), (70113, 70132),
     (70144, 70161), (70163, 70187), (70272, 70278), (70280, 70280), (70282, 70285), (70287, 70301),
     (70303, 70312), (70320, 70366), (70384, 70393), (70405, 70412), (70415, 70416), (70419, 70440),
     (70442, 70448), (70450, 70451), (70453, 70457), (70461, 70461), (70480, 70480), (70493, 70497),
     (70656, 70708), (70727, 70730), (70736, 70745), (70751, 70753), (70784, 70831), (70852, 70853),
     (70855, 70855), (70864, 70873), (71040, 71086), (71128, 71131), (71168, 71215), (71236, 71236),
     (71248, 71257), (71296, 71338), (71352, 71352), (71360, 71369), (71424, 71450), (71472, 71483),
     (71488, 71494), (71680, 71723), (71840, 71922), (71935, 71942), (71945, 71945), (71948, 71955),
     (71957, 71958), (71960, 71983), (71999, 71999), (72001, 72001), (72016, 72025), (72096, 72103),
     (72106, 72144), (72161, 72161), (72163, 72163), (72192, 72192), (72203, 72242), (72250, 72250),
     (72272, 72272), (72284, 72329), (72349, 72349), (72368, 72440), (72704, 72712), (72714, 72750),
     (72768, 72768), (72784, 72812), (72818, 72847), (72960, 72966), (72968, 72969), (72971, 73008),
     (73030, 73030), (73040, 73049), (73056, 73061), (73063, 73064), (73066, 73097), (73112, 73112),
     (73120, 73129), (73440, 73458), (73648, 73648), (73664, 73684), (73728, 74649), (74752, 74862),
     (74880, 75075), (77712, 77808), (77824, 78894), (82944, 83526), (92160, 92728), (92736, 92766),
     (92768, 92777), (92784, 92862), (92864, 92873), (92880, 92909), (92928, 92975), (92992, 92995),
     (93008, 93017), (93019, 93025), (93027, 93047), (93053, 93071), (93760, 93846), (93952, 94026),
     (94032, 94032), (94099, 94111), (94176, 94177), (94179, 94179), (94208, 100343), (100352, 101589),
     (101632, 101640), (110576, 110579), (110581, 110587), (110589, 110590), (110592, 110882), (110928, 110930),
     (110948, 110951), (110960, 111355), (113664, 113770), (113776, 113788), (113792, 113800), (113808, 113817),
     (119520, 119539), (119648, 119672), (119808, 119892), (119894, 119964), (119966, 119967), (119970, 119970),
     (119973, 119974), (119977, 119980), (119982, 119993), (119995, 119995), (119997, 120003), (120005, 120069),
     (120071, 120074), (120077, 120084), (120086, 120092), (120094, 120121), (120123, 120126), (120128, 120132),
     (120134, 120134), (120138, 120144), (120146, 120485), (120488, 120512), (120514, 120538), (120540, 120570),
     (120572, 120596), (120598, 120628), (120630, 120654), (120656, 120686), (120688, 120712), (120714, 120744),
     (120746, 120770), (120772, 120779), (120782, 120831), (122624, 122654), (123136, 123180), (123191, 123197),
     (123200, 123209), (123214, 123214), (123536, 123565), (123584, 123627), (123632, 123641), (124896, 124902),
     (124904, 124907), (124909, 124910), (124912, 124926), (124928, 125124), (125127, 125135), (125184, 125251),
     (125259, 125259), (125264, 125273), (126065, 126123), (126125, 126127), (126129, 126132), (126209, 126253),
     (126255, 126269), (126464, 126467), (126469, 126495), (126497, 126498), (126500, 126500), (126503, 126503),
     (126505, 126514), (126516, 126519), (126521, 126521), (126523, 126523), (126530, 126530), (126535, 126535),
     (126537, 126537), (126539, 126539), (126541, 126543), (126545, 126546), (126548, 126548), (126551, 126551),
     (126553, 126553), (126555, 126555), (126557, 126557), (126559, 126559), (126561, 126562), (126564, 126564),
     (126567, 126570), (126572, 126578), (126580, 126583), (126585, 126588), (126590, 126590), (126592, 126601),
     (126603, 126619), (126625, 126627), (126629, 126633), (126635, 126651), (127232, 127244), (130032, 130041),
     (131072, 173791), (173824, 177976), (177984, 178205), (178208, 183969), (183984, 191456), (194560, 195101),
     (196608, 201546)]"

definition isspace :: "nat \<Rightarrow> bool" where
  "isspace c = in_ranges space_ranges c"

definition isdecimal :: "nat \<Rightarrow> bool" where
  "isdecimal c = in_ranges decimal_ranges c"

definition isword :: "nat \<Rightarrow> bool" where
  "isword c = (c = 95 \<or> in_ranges alnum_ranges c)"


subsection \<open>Methods of str\<close>

datatype exn = ValueError | OverflowError | TypeError



definition lstrip :: "ustr \<Rightarrow> ustr" where
  "lstrip s = dropWhile isspace s"

definition rstrip :: "ustr \<Rightarrow> ustr" where
  "rstrip s = rev (dropWhile isspace (rev s))"

definition strip :: "ustr \<Rightarrow> ustr" where
  "strip s = rstrip (lstrip s)"

text \<open>\<open>s.strip(chars)\<close> removes leading and trailing code points that occur in \<open>chars\<close>.\<close>

definition strip_chars :: "ustr \<Rightarrow> ustr \<Rightarrow> ustr" where
  "strip_chars chars s =
     rev (dropWhile (\<lambda>c. c \<in> set chars) (rev (dropWhile (\<lambda>c. c \<in> set chars) s)))"

text \<open>\<open>sub in s\<close>, \<open>s.startswith(p)\<close> and \<open>s.endswith(p)\<close>.\<close>

fun contains :: "ustr \<Rightarrow> ustr \<Rightarrow> bool" where
  "contains sub [] = (sub = [])"
| "contains sub (c # cs) = (prefix sub (c # cs) \<or> contains sub cs)"

definition startswith :: "ustr \<Rightarrow> ustr \<Rightarrow> bool" where
  "startswith s p = prefix p s"

definition endswith :: "ustr \<Rightarrow> ustr \<Rightarrow> bool" where
  "endswith s p = suffix p s"

text \<open>\<open>s.replace(a, b)\<close> for one-character strings \<open>a\<close> and \<open>b\<close>.\<close>

definition replace_char :: "nat \<Rightarrow> nat \<Rightarrow> ustr \<Rightarrow> ustr" where
  "replace_char a b s = map (\<lambda>c. if c = a then b else c) s"

text \<open>\<open>s.split(sep)\<close> for a one-character separator: never an empty list.\<close>

fun split_on :: "nat \<Rightarrow> ustr \<Rightarrow> ustr list" where
  "split_on sep [] = [[]]"
| "split_on sep (c # cs) =
     (if c = sep then [] # split_on sep cs
      else (case split_on sep cs of
              [] \<Rightarrow> [[c]]
            | p # ps \<Rightarrow> (c # p) # ps))"

section \<open>Regular expressions (module re)\<close>

text \<open>
  A pattern is a term of \<open>rx\<close>. \<open>rx_run r st\<close> lists the states in which a match of \<open>r\<close>
  that starts in \<open>st\<close> can end, in the order in which the backtracking matcher of \<open>re\<close>
  tries them: the alternatives of \<open>|\<close> from left to right, a greedy \<open>*\<close> with one more
  iteration first. The first state of the list is the match \<open>re\<close> reports. A state holds the
  code point before the position (for \<open>^\<close> and \<open>\b\<close>), the rest of the subject, and the
  groups captured so far.
\<close>

datatype rx =
    Eps
  | Cls "nat \<Rightarrow> bool"
  | Seq rx rx
  | Alt rx rx
  | Star rx
  | Grp nat rx
  | Bol
  | Eol
  | Wordb

type_synonym rstate = "nat option \<times> ustr \<times> (nat \<times> ustr) list"

definition word_before :: "nat option \<Rightarrow> bool" where
  "word_before pc = (case pc of None \<Rightarrow> False | Some c \<Rightarrow> isword c)"

definition word_after :: "ustr \<Rightarrow> bool" where
  "word_after s = (case s of [] \<Rightarrow> False | c # _ \<Rightarrow> isword c)"

text \<open>
  \<open>Bol\<close> is \<open>^\<close> and \<open>Eol\<close> is \<open>$\<close> without the MULTILINE flag: the start of the subject,
  and its end or the position before a newline that ends it. \<open>Wordb\<close> is \<open>\b\<close>.
\<close>

function rx_run :: "rx \<Rightarrow> rstate \<Rightarrow> rstate list" where
  "rx_run Eps st = [st]"
| "rx_run (Cls p) (pc, s, g) =
     (case s of [] \<Rightarrow> [] | c # cs \<Rightarrow> if p c then [(Some c, cs, g)] else [])"
| "rx_run (Seq a b) st = concat (map (rx_run b) (rx_run a st))"
| "rx_run (Alt a b) st = rx_run a st @ rx_run b st"
| "rx_run (Star a) (pc, s, g) =
     concat (map (\<lambda>(pc', s', g').
                    if length s' < length s then rx_run (Star a) (pc', s', g') else [])
                 (rx_run a (pc, s, g)))
     @ [(pc, s, g)]"
| "rx_run (Grp k a) (pc, s, g) =
     map (\<lambda>(pc', s', g'). (pc', s', (k, take (length s - length s') s) # g'))
         (rx_run a (pc, s, g))"
| "rx_run Bol (pc, s, g) = (if pc = None then [(pc, s, g)] else [])"
| "rx_run Eol (pc, s, g) = (if s = [] \<or> s = [10] then [(pc, s, g)] else [])"
| "rx_run Wordb (pc, s, g) = (if word_before pc \<noteq> word_after s then [(pc, s, g)] else [])"
  by pat_completeness auto
termination
  by (relation "measures [\<lambda>(r, st). size r, \<lambda>(r, pc, s, g). length s]") auto

definition rx_first :: "rx \<Rightarrow> rstate \<Rightarrow> rstate option" where
  "rx_first r st = (case rx_run r st of [] \<Rightarrow> None | x # _ \<Rightarrow> Some x)"

text \<open>\<open>re.match(r, s)\<close> matches at the start of \<open>s\<close>; \<open>re.search(r, s)\<close> at the leftmost
  position where a match exists.\<close>

definition re_match :: "rx \<Rightarrow> ustr \<Rightarrow> rstate option" where
  "re_match r s = rx_first r (None, s, [])"

fun search_from :: "rx \<Rightarrow> nat option \<Rightarrow> ustr \<Rightarrow> rstate option" where
  "search_from r pc [] = rx_first r (pc, [], [])"
| "search_from r pc (c # cs) =
     (case rx_first r (pc, c # cs, []) of
        Some x \<Rightarrow> Some x
      | None \<Rightarrow> search_from r (Some c) cs)"

definition re_search :: "rx \<Rightarrow> ustr \<Rightarrow> rstate option" where
  "re_search r s = search_from r None s"


text \<open>
  \<open>re.sub(r, repl, s)\<close> for a replacement without group references: the matches are found
  from left to right, each search starting where the match before it ended; an empty match
  puts \<open>repl\<close> in and moves one code point on.
\<close>

fun sub_from :: "rx \<Rightarrow> ustr \<Rightarrow> nat option \<Rightarrow> ustr \<Rightarrow> ustr" where
  "sub_from r repl pc s =
     (case rx_first r (pc, s, []) of
        Some (pc', s', g) \<Rightarrow>
          (if length s' < length s then repl @ sub_from r repl pc' s'
           else (case s of [] \<Rightarrow> repl | c # cs \<Rightarrow> repl @ c # sub_from r repl (Some c) cs))
      | None \<Rightarrow> (case s of [] \<Rightarrow> [] | c # cs \<Rightarrow> c # sub_from r repl (Some c) cs))"

definition re_sub :: "rx \<Rightarrow> ustr \<Rightarrow> ustr \<Rightarrow> ustr" where
  "re_sub r repl s = sub_from r repl None s"

subsection \<open>Pattern syntax\<close>

definition chr :: "nat \<Rightarrow> rx" where
  "chr c = Cls (\<lambda>x. x = c)"

definition lit :: "ustr \<Rightarrow> rx" where
  "lit s = foldr (\<lambda>c r. Seq (chr c) r) s Eps"

definition seqs :: "rx list \<Rightarrow> rx" where
  "seqs rs = foldr Seq rs Eps"

definition Plus :: "rx \<Rightarrow> rx" where
  "Plus r = Seq r (Star r)"

definition Opt :: "rx \<Rightarrow> rx" where
  "Opt r = Alt r Eps"

definition digit :: rx where
  "digit = Cls isdecimal"

definition space :: rx where
  "space = Cls isspace"

subsection \<open>What a pattern matches\<close>

text \<open>
  \<open>rx_sem r pc w rest\<close>: the pattern \<open>r\<close> matches the word \<open>w\<close> when the code point before
  \<open>w\<close> is \<open>pc\<close> (none at the start of the subject) and \<open>rest\<close> follows it. It is the
  declarative reading of a pattern, against which \<open>rx_run\<close> is checked; an iteration of a
  star consumes at least one code point.
\<close>

definition last_cp :: "nat option \<Rightarrow> ustr \<Rightarrow> nat option" where
  "last_cp pc w = (if w = [] then pc else Some (last w))"

inductive rx_sem :: "rx \<Rightarrow> nat option \<Rightarrow> ustr \<Rightarrow> ustr \<Rightarrow> bool" where
  sem_Eps: "rx_sem Eps pc [] rest"
| sem_Cls: "p c \<Longrightarrow> rx_sem (Cls p) pc [c] rest"
| sem_Seq: "rx_sem a pc u (v @ rest) \<Longrightarrow> rx_sem b (last_cp pc u) v rest \<Longrightarrow>
            rx_sem (Seq a b) pc (u @ v) rest"
| sem_AltL: "rx_sem a pc w rest \<Longrightarrow> rx_sem (Alt a b) pc w rest"
| sem_AltR: "rx_sem b pc w rest \<Longrightarrow> rx_sem (Alt a b) pc w rest"
| sem_Star0: "rx_sem (Star a) pc [] rest"
| sem_StarS: "rx_sem a pc u (v @ rest) \<Longrightarrow> u \<noteq> [] \<Longrightarrow>
              rx_sem (Star a) (last_cp pc u) v rest \<Longrightarrow> rx_sem (Star a) pc (u @ v) rest"
| sem_Grp: "rx_sem a pc w rest \<Longrightarrow> rx_sem (Grp k a) pc w rest"
| sem_Bol: "rx_sem Bol None [] rest"
| sem_Eol: "rest = [] \<or> rest = [10] \<Longrightarrow> rx_sem Eol pc [] rest"
| sem_Wordb: "word_before pc \<noteq> word_after rest \<Longrightarrow> rx_sem Wordb pc [] rest"

text \<open>\<open>needs P r\<close>: every word that \<open>r\<close> matches holds a code point in \<open>P\<close>.\<close>

fun needs :: "(nat \<Rightarrow> bool) \<Rightarrow> rx \<Rightarrow> bool" where
  "needs P (Cls p) = (\<forall>c. p c \<longrightarrow> P c)"
| "needs P (Seq a b) = (needs P a \<or> needs P b)"
| "needs P (Alt a b) = (needs P a \<and> needs P b)"
| "needs P (Grp k a) = needs P a"
| "needs P r = False"

section \<open>Publisher text: TIME_RE, TIME_ONLY_RE, clean_source_text, is_timeish\<close>

text \<open>The units \<open>(\<dots>|\<dots>|\<dots>)\<close>: minutes U+5206, hours U+6642 U+9593, days U+65E5; the
  marker "ago" is U+524D.\<close>

definition unit :: rx where
  "unit = Alt (lit [20998]) (Alt (lit [26178, 38291]) (lit [26085]))"

definition ago :: nat where
  "ago = 21069"

text \<open>\<^verbatim>\<open>TIME_RE = re.compile(r"(\d+)\s*(U|U|U)\s*A")\<close>\<close>

definition TIME_RE :: rx where
  "TIME_RE = seqs [Grp 1 (Plus digit), Star space, Grp 2 unit, Star space, chr ago]"

text \<open>\<^verbatim>\<open>TIME_ONLY_RE = re.compile(r"^\s*(\d+)\s*(U|U|U)\s*(A|)?\s*$")\<close>\<close>

definition TIME_ONLY_RE :: rx where
  "TIME_ONLY_RE =
     seqs [Bol, Star space, Grp 1 (Plus digit), Star space, Grp 2 unit, Star space,
           Opt (Grp 3 (Alt (chr ago) Eps)), Star space, Eol]"

text \<open>\<^verbatim>\<open>r"\bon\s+MSN\b"\<close> with \<open>re.IGNORECASE\<close>: a letter stands for the code points of its
  case class, which for \<open>s\<close> holds U+017F.\<close>

definition ON_MSN_RE :: rx where
  "ON_MSN_RE =
     seqs [Wordb, Cls (\<lambda>c. c = 111 \<or> c = 79), Cls (\<lambda>c. c = 110 \<or> c = 78), Plus space,
           Cls (\<lambda>c. c = 109 \<or> c = 77), Cls (\<lambda>c. c = 115 \<or> c = 83 \<or> c = 383),
           Cls (\<lambda>c. c = 110 \<or> c = 78), Wordb]"

text \<open>\<^verbatim>\<open>r"MSN\s*<ni yoru haishin>"\<close>\<close>

definition MSN_DELIVERY_RE :: rx where
  "MSN_DELIVERY_RE = seqs [lit [77, 83, 78], Star space, lit [12395, 12424, 12427, 37197, 20449]]"

text \<open>\<^verbatim>\<open>r"(<teikyou>|<haishin>)\s*[:<fullwidth colon>]?"\<close>\<close>

definition PROVIDED_RE :: rx where
  "PROVIDED_RE =
     seqs [Grp 1 (Alt (lit [25552, 20379]) (lit [37197, 20449])), Star space,
           Opt (Cls (\<lambda>c. c = 58 \<or> c = 65306))]"

text \<open>\<^verbatim>\<open>r"\s*\d+\s*(U|U|U)\s*(A|)?\s*$"\<close>\<close>

definition TRAILING_TIME_RE :: rx where
  "TRAILING_TIME_RE =
     seqs [Star space, Plus digit, Star space, Grp 1 unit, Star space,
           Opt (Grp 2 (Alt (chr ago) Eps)), Star space, Eol]"

text \<open>\<^verbatim>\<open>r"\s*\(\s*\)\s*$"\<close>\<close>

definition EMPTY_PARENS_RE :: rx where
  "EMPTY_PARENS_RE = seqs [Star space, chr 40, Star space, chr 41, Star space, Eol]"

text \<open>\<^verbatim>\<open>r"\s{2,}"\<close>\<close>

definition SPACES_RE :: rx where
  "SPACES_RE = seqs [space, space, Star space]"

text \<open>The characters of \<^verbatim>\<open>t.strip("<katakana dot>|<bullet>|<middle dot>|-<en dash><em dash>:<fullwidth colon>")\<close>.\<close>

definition SEPARATORS :: ustr where
  "SEPARATORS = [12539, 124, 8226, 124, 183, 124, 45, 8211, 8212, 58, 65306]"

definition clean_source_text :: "ustr \<Rightarrow> ustr" where
  "clean_source_text raw =
     (if raw = [] then []
      else
        let t = strip raw;
            t = re_sub ON_MSN_RE [] t;
            t = re_sub MSN_DELIVERY_RE [] t;
            t = re_sub PROVIDED_RE [] t;
            t = replace_char 183 32 (replace_char 8226 32 (replace_char 12539 32 t));
            t = strip (re_sub TRAILING_TIME_RE [] t);
            t = strip (re_sub TIME_RE [] t);
            t = strip (re_sub EMPTY_PARENS_RE [] t);
            t = strip (re_sub SPACES_RE [32] t);
            t = strip (strip_chars SEPARATORS t)
        in if re_match TIME_ONLY_RE t \<noteq> None then [] else t)"

definition is_timeish :: "ustr \<Rightarrow> bool" where
  "is_timeish text =
     (if text = [] then False
      else if re_match TIME_ONLY_RE (strip text) \<noteq> None then True
      else if re_search TIME_RE text \<noteq> None then True
      else False)"

text \<open>
  A plain name: no whitespace, no decimal digit, no opening parenthesis, none of the
  characters U+63D0 and U+914D with which the markers "provided by" and "delivered by" start,
  none of the dots U+30FB, U+2022 and U+00B7, and no separator at either end.
\<close>

definition plain_name :: "ustr \<Rightarrow> bool" where
  "plain_name y =
     (list_all (\<lambda>c. \<not> isspace c \<and> \<not> isdecimal c \<and> c \<noteq> 40 \<and> c \<noteq> 25552 \<and> c \<noteq> 37197
                     \<and> c \<noteq> 12539 \<and> c \<noteq> 8226 \<and> c \<noteq> 183) y
      \<and> (case y of [] \<Rightarrow> True | c # cs \<Rightarrow> c \<notin> set SEPARATORS \<and> last y \<notin> set SEPARATORS))"

text \<open>
  The words of the specification of \<open>is_timeish\<close>. A time phrase is a number, a unit and the
  marker "ago", with optional whitespace between them: \<open><number> <unit> [ago]\<close>. With
  \<open>optional\<close> the marker may be missing.
\<close>

definition is_unit :: "ustr \<Rightarrow> bool" where
  "is_unit u = (u = [20998] \<or> u = [26178, 38291] \<or> u = [26085])"

definition time_phrase :: "bool \<Rightarrow> ustr \<Rightarrow> bool" where
  "time_phrase optional s =
     (\<exists>ds w1 u w2 a. s = ds @ w1 @ u @ w2 @ a \<and> ds \<noteq> [] \<and> list_all isdecimal ds
        \<and> list_all isspace w1 \<and> is_unit u \<and> list_all isspace w2
        \<and> (a = [ago] \<or> optional \<and> a = []))"

definition contains_phrase :: "bool \<Rightarrow> ustr \<Rightarrow> bool" where
  "contains_phrase optional s = (\<exists>pre w post. s = pre @ w @ post \<and> time_phrase optional w)"

text \<open>Where \<open>$\<close> matches: at the end, or before a newline that ends the subject.\<close>

definition at_end :: "ustr \<Rightarrow> bool" where
  "at_end rest = (rest = [] \<or> rest = [10])"

section \<open>The Python runtime\<close>

text \<open>
  What the program takes from tables of the Python runtime that are not part of it is a
  parameter of the model: the case mappings of the Unicode database behind \<open>str.lower\<close> and
  \<open>str.capitalize\<close>, the classes behind \<open>str.isdigit\<close> and \<open>str.isalpha\<close>, and the checks for
  which \<open>urlsplit\<close> refuses a network location with \<open>ValueError\<close> beyond unbalanced
  brackets (the address inside brackets, and a non-ASCII location whose NFKC form holds one
  of \<open>/?#@:\<close>).
\<close>

record pylib =
  str_lower :: "ustr \<Rightarrow> ustr"
  str_capitalize :: "ustr \<Rightarrow> ustr"
  str_isdigit :: "ustr \<Rightarrow> bool"
  chr_isalpha :: "nat \<Rightarrow> bool"
  netloc_refused :: "ustr \<Rightarrow> bool"

text \<open>
  A runtime for the examples: it agrees with CPython on strings of Basic Latin, the only
  strings it is applied to, and refuses no network location.
\<close>

definition basic_lower :: "ustr \<Rightarrow> ustr" where
  "basic_lower s = map (\<lambda>c. if 65 \<le> c \<and> c \<le> 90 then c + 32 else c) s"

definition basic_capitalize :: "ustr \<Rightarrow> ustr" where
  "basic_capitalize s =
     (case s of [] \<Rightarrow> []
      | c # cs \<Rightarrow> (if 97 \<le> c \<and> c \<le> 122 then c - 32 else c) # basic_lower cs)"

definition basic_lib :: pylib where
  "basic_lib =
     \<lparr>str_lower = basic_lower, str_capitalize = basic_capitalize,
      str_isdigit = (\<lambda>s. s \<noteq> [] \<and> list_all (\<lambda>c. 48 \<le> c \<and> c \<le> 57) s),
      chr_isalpha = (\<lambda>c. 65 \<le> c \<and> c \<le> 90 \<or> 97 \<le> c \<and> c \<le> 122),
      netloc_refused = (\<lambda>n. False)\<rparr>"

section \<open>Publisher inference: publisher_from_url\<close>

text \<open>
  \<open>urlparse(url).netloc\<close>, following \<open>urllib.parse.urlsplit\<close>: leading C0 controls and
  spaces are stripped, tabs and line breaks removed, a scheme \<open>letter (letter|digit|+|-|.)*:\<close>
  taken off, and after \<open>//\<close> the network location runs up to the first of \<open>/\<close>, \<open>?\<close>, \<open>#\<close>.
  Without \<open>//\<close> the network location is empty.
\<close>

definition scheme_char :: "nat \<Rightarrow> bool" where
  "scheme_char c =
     (97 \<le> c \<and> c \<le> 122 \<or> 65 \<le> c \<and> c \<le> 90 \<or> 48 \<le> c \<and> c \<le> 57
      \<or> c = 43 \<or> c = 45 \<or> c = 46)"

definition ascii_alpha :: "nat \<Rightarrow> bool" where
  "ascii_alpha c = (65 \<le> c \<and> c \<le> 90 \<or> 97 \<le> c \<and> c \<le> 122)"

definition strip_scheme :: "ustr \<Rightarrow> ustr" where
  "strip_scheme url =
     (let pre = takeWhile (\<lambda>c. c \<noteq> 58) url
      in if length pre < length url \<and> pre \<noteq> [] \<and> ascii_alpha (hd pre) \<and> list_all scheme_char pre
         then drop (length pre + 1) url
         else url)"

definition urlparse_netloc :: "pylib \<Rightarrow> ustr \<Rightarrow> exn + ustr" where
  "urlparse_netloc L url0 =
     (let url = dropWhile (\<lambda>c. c \<le> 32) url0;
          url = filter (\<lambda>c. c \<noteq> 9 \<and> c \<noteq> 13 \<and> c \<noteq> 10) url;
          url = strip_scheme url
      in if take 2 url = [47, 47] then
           (let netloc = takeWhile (\<lambda>c. c \<noteq> 47 \<and> c \<noteq> 63 \<and> c \<noteq> 35) (drop 2 url)
            in if (91 \<in> set netloc \<and> 93 \<notin> set netloc) \<or> (93 \<in> set netloc \<and> 91 \<notin> set netloc)
               then Inl ValueError
               else if netloc_refused L netloc then Inl ValueError
               else Inr netloc)
         else Inr [])"

definition NAME_MAP :: "(ustr \<times> ustr) list" where
  "NAME_MAP =
     [(asc ''response.jp'', [12524, 12473, 12509, 12531, 12473, 65288, 82, 101, 115, 112, 111, 110, 115, 101, 46, 106, 112, 65289]),
      (asc ''newsweekjapan.jp'', [12491, 12517, 12540, 12474, 12454, 12451, 12540, 12463, 26085, 26412, 29256]),
      (asc ''bloomberg.co.jp'', [12502, 12523, 12540, 12512, 12496, 12540, 12464]),
      (asc ''motor-fan.jp'', [77, 111, 116, 111, 114, 45, 70, 97, 110]),
      (asc ''young-machine.com'', [12516, 12531, 12464, 12510, 12471, 12531]),
      (asc ''as-web.jp'', [97, 117, 116, 111, 115, 112, 111, 114, 116, 32, 119, 101, 98]),
      (asc ''webcg.net'', [87, 101, 98, 67, 71]),
      (asc ''bestcarweb.jp'', [12505, 12473, 12488, 12459, 12540, 87, 101, 98])]"

text \<open>
  The body of \<open>publisher_from_url\<close> runs under \<^verbatim>\<open>try: ... except: return ""\<close>; the only call
  in it that raises is \<open>urlparse\<close>.
\<close>

definition publisher_from_url :: "pylib \<Rightarrow> ustr \<Rightarrow> ustr" where
  "publisher_from_url L url =
     (case urlparse_netloc L url of
        Inl e \<Rightarrow> []
      | Inr nl \<Rightarrow>
          (let netloc = str_lower L nl
           in if netloc = [] then []
              else if endswith netloc (asc ''msn.com'') then asc ''MSN''
              else if contains (asc ''news.yahoo.co.jp'') netloc then asc ''Yahoo''
              else
                (let host = (case split_on 58 netloc of [] \<Rightarrow> [] | h # _ \<Rightarrow> h);
                     host = (if startswith host (asc ''www.'') then drop 4 host else host)
                 in case map_of NAME_MAP host of
                      Some name \<Rightarrow> name
                    | None \<Rightarrow>
                        (let parts = split_on 46 host;
                             base = (if length parts \<ge> 2 then parts ! (length parts - 2) else host);
                             base = replace_char 95 32 (replace_char 45 32 base)
                         in str_capitalize L base))))"

section \<open>The publisher of a record in the three extractors\<close>

text \<open>
  The pages are read by a browser; the model starts from what the selectors give: for each
  selector, in the order of the loop, the text of the element found, or \<open>None\<close> when there
  is no such element.

  Google (\<open>get_google_news_with_selenium\<close>): the text of the first element found, else the
  publisher inferred from the resolved URL, else \<open>Google\<close>.
\<close>

fun first_found :: "ustr option list \<Rightarrow> ustr" where
  "first_found [] = []"
| "first_found (None # els) = first_found els"
| "first_found (Some t # els) = t"

definition google_source :: "pylib \<Rightarrow> ustr option list \<Rightarrow> ustr \<Rightarrow> ustr" where
  "google_source L els final_url =
     (let guessed_source = publisher_from_url L final_url;
          source = first_found els
      in if source = [] then (if guessed_source \<noteq> [] then guessed_source else asc ''Google'')
         else source)"

text \<open>
  Yahoo (\<open>get_yahoo_news_with_selenium\<close>): the text of an element is taken when, with dates
  \<^verbatim>\<open>\d{4}/\d{1,2}/\d{1,2} \d{2}:\d{2}\<close> and parentheses \<^verbatim>\<open>\([^)]+\)\<close> removed and trimmed, it
  is not empty, not a number, and holds a letter or a code point from U+3040 to U+9FFF.
\<close>

definition YAHOO_DATE_RE :: rx where
  "YAHOO_DATE_RE =
     seqs [digit, digit, digit, digit, chr 47, digit, Opt digit, chr 47, digit, Opt digit,
           chr 32, digit, digit, chr 58, digit, digit]"

definition PARENS_RE :: rx where
  "PARENS_RE = seqs [chr 40, Plus (Cls (\<lambda>c. c \<noteq> 41)), chr 41]"

definition yahoo_candidate :: "pylib \<Rightarrow> ustr \<Rightarrow> ustr option" where
  "yahoo_candidate L t =
     (let txt = re_sub YAHOO_DATE_RE [] t;
          txt = re_sub PARENS_RE [] txt;
          txt = strip txt
      in if txt \<noteq> [] \<and> \<not> str_isdigit L txt
            \<and> list_ex (\<lambda>ch. chr_isalpha L ch \<or> (12352 \<le> ch \<and> ch \<le> 40959)) txt
         then Some txt else None)"

fun yahoo_scan :: "pylib \<Rightarrow> ustr option list \<Rightarrow> ustr" where
  "yahoo_scan L [] = []"
| "yahoo_scan L (None # els) = yahoo_scan L els"
| "yahoo_scan L (Some t # els) =
     (case yahoo_candidate L t of Some txt \<Rightarrow> txt | None \<Rightarrow> yahoo_scan L els)"

definition yahoo_source :: "pylib \<Rightarrow> ustr option list \<Rightarrow> ustr \<Rightarrow> ustr" where
  "yahoo_source L els url =
     (let source = yahoo_scan L els
      in if source = []
         then (let p = publisher_from_url L url in if p \<noteq> [] then p else asc ''Yahoo'')
         else source)"

text \<open>
  MSN (\<open>get_msn_news_with_selenium\<close>): the cleaned text of the source block; when that is
  empty and there is a parent element, the first candidate whose cleaned text is not empty
  and not a time expression; when the result is empty or a time expression, the publisher
  inferred from the URL, else \<open>MSN\<close>.
\<close>

fun msn_scan :: "ustr option list \<Rightarrow> ustr" where
  "msn_scan [] = []"
| "msn_scan (None # els) = msn_scan els"
| "msn_scan (Some t # els) =
     (let cand = clean_source_text t
      in if cand \<noteq> [] \<and> \<not> is_timeish cand then cand else msn_scan els)"

definition msn_source :: "pylib \<Rightarrow> ustr \<Rightarrow> bool \<Rightarrow> ustr option list \<Rightarrow> ustr \<Rightarrow> ustr" where
  "msn_source L raw_source parent els href =
     (let source = clean_source_text raw_source;
          source = (if source = [] \<and> parent then msn_scan els else source)
      in if source = [] \<or> is_timeish source
         then (let p = publisher_from_url L href in if p \<noteq> [] then p else asc ''MSN'')
         else source)"

section \<open>Dates and times (module datetime)\<close>
















subsection \<open>format_datetime\<close>








section \<open>datetime.strptime\<close>

















section \<open>parse_relative_time\<close>













section \<open>The publication date of a record in the three extractors\<close>








section \<open>Article records and the deduplicating append (write_to_spreadsheet)\<close>

text \<open>
  The extractors build dicts with exactly the four keys
  \<open>{"\<dots>title": \<dots>, "URL": \<dots>, "\<dots>date": \<dots>, "\<dots>source": \<dots>}\<close>; a row of the sheet is
  a list of cell strings.
\<close>

record article =
  title :: ustr
  URL :: ustr
  pub_date :: ustr
  source :: ustr

type_synonym row = "ustr list"

definition row_of :: "article \<Rightarrow> row" where
  "row_of a = [title a, URL a, pub_date a, source a]"

text \<open>
  \<^verbatim>\<open>existing_urls = set(row[1] for row in existing[1:] if len(row) > 1)\<close>
\<close>

fun urls_of_rows :: "row list \<Rightarrow> ustr set" where
  "urls_of_rows [] = {}"
| "urls_of_rows (r # rs) =
     (if length r > 1 then insert (r ! 1) (urls_of_rows rs) else urls_of_rows rs)"

definition existing_urls :: "row list \<Rightarrow> ustr set" where
  "existing_urls existing = urls_of_rows (drop 1 existing)"

text \<open>
  \<^verbatim>\<open>new_rows = [[a[title], a['URL'], a[date], a[source]]
              for a in articles if a['URL'] not in existing_urls]\<close>
  The comprehension walks \<open>articles\<close> from the left; \<open>selected\<close> is the list of the
  articles it keeps and \<open>new_rows\<close> the rows it builds from them.
\<close>

fun selected :: "article list \<Rightarrow> ustr set \<Rightarrow> article list" where
  "selected [] ex = []"
| "selected (a # as) ex =
     (if URL a \<notin> ex then a # selected as ex else selected as ex)"

fun new_rows :: "article list \<Rightarrow> ustr set \<Rightarrow> row list" where
  "new_rows [] ex = []"
| "new_rows (a # as) ex =
     (if URL a \<notin> ex then row_of a # new_rows as ex else new_rows as ex)"

definition art :: "ustr \<Rightarrow> article" where
  "art u = \<lparr>title = [], URL = u, pub_date = [], source = []\<rparr>"

section \<open>The store and the retry loop (write_to_spreadsheet)\<close>

text \<open>
  The model starts at the loop \<^verbatim>\<open>for attempt in range(5)\<close>: the credentials have been loaded
  and the client built. A worksheet is the list of its rows as \<^verbatim>\<open>get_all_values\<close> returns
  them. Every call of the client either fails and changes nothing or succeeds; which calls
  fail is scripted by \<open>faults\<close>, one entry per call, none left meaning success.
  \<open>ApiFault\<close> is \<^verbatim>\<open>gspread.exceptions.APIError\<close>, the only exception the loop catches.
\<close>

datatype error = APIError | RuntimeError | OtherError

datatype fault = NoFault | ApiFault | OtherFault

record world =
  sheets :: "ustr \<rightharpoonup> row list"
  faults :: "fault list"

definition header :: row where
  "header = [[12479, 12452, 12488, 12523], [85, 82, 76], [25237, 31295, 26085],
             [24341, 29992, 20803]]"

text \<open>One call of the client.\<close>

definition api_call :: "world \<Rightarrow> (error + unit) \<times> world" where
  "api_call w =
     (case faults w of
        [] \<Rightarrow> (Inr (), w)
      | NoFault # fs \<Rightarrow> (Inr (), w\<lparr>faults := fs\<rparr>)
      | ApiFault # fs \<Rightarrow> (Inl APIError, w\<lparr>faults := fs\<rparr>)
      | OtherFault # fs \<Rightarrow> (Inl OtherError, w\<lparr>faults := fs\<rparr>))"

definition put_sheet :: "ustr \<Rightarrow> row list \<Rightarrow> world \<Rightarrow> world" where
  "put_sheet name rows w = w\<lparr>sheets := (sheets w)(name \<mapsto> rows)\<rparr>"

text \<open>
  \<^verbatim>\<open>try: ws = sh.worksheet(name)
  except WorksheetNotFound:
      ws = sh.add_worksheet(title=name, rows="1", cols="4"); ws.append_row(header)\<close>
\<close>

definition get_worksheet :: "ustr \<Rightarrow> world \<Rightarrow> (error + unit) \<times> world" where
  "get_worksheet name w0 =
     (case api_call w0 of
        (Inl e, w1) \<Rightarrow> (Inl e, w1)
      | (Inr _, w1) \<Rightarrow>
          (case sheets w1 name of
             Some _ \<Rightarrow> (Inr (), w1)
           | None \<Rightarrow>
               (case api_call w1 of
                  (Inl e, w2) \<Rightarrow> (Inl e, w2)
                | (Inr _, w2) \<Rightarrow>
                    (case api_call (put_sheet name [] w2) of
                       (Inl e, w3) \<Rightarrow> (Inl e, w3)
                     | (Inr _, w3) \<Rightarrow> (Inr (), put_sheet name [header] w3)))))"

text \<open>
  One pass through the body of the loop: \<^verbatim>\<open>open_by_key\<close>, the worksheet, \<^verbatim>\<open>get_all_values\<close>,
  and \<^verbatim>\<open>append_rows\<close> when there are new rows.
\<close>

definition attempt :: "article list \<Rightarrow> ustr \<Rightarrow> world \<Rightarrow> (error + unit) \<times> world" where
  "attempt articles name w0 =
     (case api_call w0 of
        (Inl e, w1) \<Rightarrow> (Inl e, w1)
      | (Inr _, w1) \<Rightarrow>
     (case get_worksheet name w1 of
        (Inl e, w2) \<Rightarrow> (Inl e, w2)
      | (Inr _, w2) \<Rightarrow>
     (case api_call w2 of
        (Inl e, w3) \<Rightarrow> (Inl e, w3)
      | (Inr _, w3) \<Rightarrow>
          (let existing = (case sheets w3 name of Some rows \<Rightarrow> rows | None \<Rightarrow> []);
               rows = new_rows articles (existing_urls existing)
           in if rows \<noteq> [] then
                (case api_call w3 of
                   (Inl e, w4) \<Rightarrow> (Inl e, w4)
                 | (Inr _, w4) \<Rightarrow> (Inr (), put_sheet name (existing @ rows) w4))
              else (Inr (), w3)))))"

text \<open>
  The loop: an \<open>APIError\<close> moves on to the next attempt, any other exception leaves the
  function, and after the last attempt \<^verbatim>\<open>raise RuntimeError\<close>.
\<close>

fun retry :: "nat \<Rightarrow> article list \<Rightarrow> ustr \<Rightarrow> world \<Rightarrow> (error + unit) \<times> world" where
  "retry 0 articles name w = (Inl RuntimeError, w)"
| "retry (Suc n) articles name w =
     (case attempt articles name w of
        (Inr u, w') \<Rightarrow> (Inr u, w')
      | (Inl APIError, w') \<Rightarrow> retry n articles name w'
      | (Inl e, w') \<Rightarrow> (Inl e, w'))"

definition write_to_spreadsheet :: "article list \<Rightarrow> ustr \<Rightarrow> world \<Rightarrow> (error + unit) \<times> world" where
  "write_to_spreadsheet articles name w = retry 5 articles name w"

text \<open>The store as the first \<open>k\<close> attempts leave it.\<close>

fun after :: "nat \<Rightarrow> article list \<Rightarrow> ustr \<Rightarrow> world \<Rightarrow> world" where
  "after 0 articles name w = w"
| "after (Suc k) articles name w = after k articles name (snd (attempt articles name w))"

definition fresh_or_same :: "ustr \<Rightarrow> world \<Rightarrow> world \<Rightarrow> bool" where
  "fresh_or_same name w0 w =
     (case sheets w0 name of
        Some rows \<Rightarrow> sheets w name = Some rows
      | None \<Rightarrow> sheets w name = None \<or> sheets w name = Some [] \<or> sheets w name = Some [header])"

definition w_fail :: world where
  "w_fail = \<lparr>sheets = Map.empty, faults = [ApiFault, ApiFault, ApiFault, ApiFault, ApiFault]\<rparr>"

definition w_two :: world where
  "w_two = \<lparr>sheets = Map.empty, faults = [ApiFault, NoFault, NoFault, NoFault, ApiFault]\<rparr>"

text \<open>
  An article \<open>C\<close>, a store without the worksheet in which the write of the header row
  fails once, and the store that run leaves behind, in which the next call fails once.
\<close>

definition art_C :: article where
  "art_C = \<lparr>title = [84], URL = [67], pub_date = [68], source = [83]\<rparr>"

definition w_missing :: world where
  "w_missing = \<lparr>sheets = Map.empty, faults = [NoFault, NoFault, NoFault, ApiFault]\<rparr>"

definition w_headerless :: world where
  "w_headerless = \<lparr>sheets = [[77, 83, 78] \<mapsto> [row_of art_C]], faults = [ApiFault]\<rparr>"

section \<open>Properties of the deduplicating append\<close>

lemma selected_filter: "selected as ex = filter (\<lambda>a. URL a \<notin> ex) as"
  by (induction as) simp_all

lemma new_rows_selected: "new_rows as ex = map row_of (selected as ex)"
  by (induction as) simp_all

text \<open>
  Claim C6. The rows appended are built from exactly the candidates whose URL is not in the
  set of existing URLs: the kept candidates are a subsequence of the batch in its original
  order, every candidate with an unknown URL is kept as often as it occurs in the batch
  (duplicates inside the batch survive), every candidate with a known URL is dropped, and
  the result is a function of the batch and the set alone, the set being only read. With
  existing URLs \<open>{A, B}\<close> and the batch \<open>[A, C, C, D]\<close> the result is \<open>[C, C, D]\<close>.
\<close>

theorem dedup_append_subsequence:
  "new_rows as ex = map row_of (filter (\<lambda>a. URL a \<notin> ex) as)
   \<and> subseq (selected as ex) as
   \<and> count_list (selected as ex) a = (if URL a \<in> ex then 0 else count_list as a)
   \<and> selected [art [65], art [67], art [67], art [68]] {[65], [66]}
       = [art [67], art [67], art [68]]"
proof -
  have c: "count_list (filter (\<lambda>a. URL a \<notin> ex) as) a
           = (if URL a \<in> ex then 0 else count_list as a)"
    by (induction as) auto
  have e: "selected [art [65], art [67], art [67], art [68]] {[65], [66]}
           = [art [67], art [67], art [68]]"
    by (simp add: art_def)
  have s: "subseq (selected as ex) as"
    by (simp add: selected_filter)
  have n: "new_rows as ex = map row_of (filter (\<lambda>a. URL a \<notin> ex) as)"
    by (simp add: new_rows_selected selected_filter)
  from n s c e show ?thesis
    unfolding selected_filter by blast
qed

section \<open>The matcher against what a pattern matches\<close>

lemmas rx_run_Star = rx_run.simps(5)

declare rx_run.simps(5) [simp del]

lemmas sub_from_unfold = sub_from.simps

declare sub_from.simps [simp del]

lemma last_cp_append: "last_cp (last_cp pc u) v = last_cp pc (u @ v)"
  by (simp add: last_cp_def)

lemma last_cp_Nil [simp]: "last_cp pc [] = pc"
  by (simp add: last_cp_def)

lemma run_sound:
  "(pc', s', g') \<in> set (rx_run r st) \<Longrightarrow>
     \<exists>w. fst (snd st) = w @ s' \<and> pc' = last_cp (fst st) w \<and> rx_sem r (fst st) w s'"
proof (induction r st arbitrary: pc' s' g' rule: rx_run.induct)
  case (1 st)
  then have "st = (pc', s', g')" by simp
  then show ?case by (auto intro: sem_Eps)
next
  case (2 p pc s g)
  then obtain c where "s = c # s'" "p c" "pc' = Some c"
    by (auto split: list.splits if_splits)
  then show ?case
    by (auto simp: last_cp_def intro!: exI [of _ "[c]"] sem_Cls)
next
  case (3 a b st)
  from "3.prems" obtain pc1 s1 g1 where
    m: "(pc1, s1, g1) \<in> set (rx_run a st)" and
    n: "(pc', s', g') \<in> set (rx_run b (pc1, s1, g1))"
    by auto
  from "3.IH"(1) [OF m] obtain u where
    u: "fst (snd st) = u @ s1" "pc1 = last_cp (fst st) u" "rx_sem a (fst st) u s1" by blast
  from "3.IH"(2) [OF m n] obtain v where
    v: "s1 = v @ s'" "pc' = last_cp pc1 v" "rx_sem b pc1 v s'" by auto
  from u v have "rx_sem (Seq a b) (fst st) (u @ v) s'"
    by (auto intro: sem_Seq)
  with u v show ?case
    by (intro exI [of _ "u @ v"]) (simp add: last_cp_append)
next
  case (4 a b st)
  from "4.prems" consider "(pc', s', g') \<in> set (rx_run a st)" | "(pc', s', g') \<in> set (rx_run b st)"
    by auto
  then show ?case
  proof cases
    case 1
    from "4.IH"(1) [OF 1] show ?thesis by (blast intro: sem_AltL)
  next
    case 2
    from "4.IH"(2) [OF 2] show ?thesis by (blast intro: sem_AltR)
  qed
next
  case (5 a pc s g)
  show ?case
  proof (cases "(pc', s', g') = (pc, s, g)")
    case True
    then show ?thesis by (auto intro: sem_Star0)
  next
    case False
    have eq: "rx_run (Star a) (pc, s, g) = concat (map (\<lambda>(pc', s', g').
                    if length s' < length s then rx_run (Star a) (pc', s', g') else [])
                 (rx_run a (pc, s, g))) @ [(pc, s, g)]"
      by (rule rx_run_Star)
    from "5.prems" have "(pc', s', g') \<in> set (concat (map (\<lambda>(pc', s', g').
                    if length s' < length s then rx_run (Star a) (pc', s', g') else [])
                 (rx_run a (pc, s, g))) @ [(pc, s, g)])"
      by (simp only: eq)
    with False obtain x where
      x: "x \<in> set (rx_run a (pc, s, g))" and
      y: "(pc', s', g') \<in> set (case x of (pc', s', g') \<Rightarrow>
                    if length s' < length s then rx_run (Star a) (pc', s', g') else [])"
      by (simp only: set_append set_concat set_map list.set) blast
    obtain pc1 s1 g1 where x1: "x = (pc1, s1, g1)" by (cases x)
    from y x1 have l: "length s1 < length s"
      by (cases "length s1 < length s") simp_all
    from x x1 have m: "(pc1, s1, g1) \<in> set (rx_run a (pc, s, g))" by simp
    from y x1 l have n: "(pc', s', g') \<in> set (rx_run (Star a) (pc1, s1, g1))" by simp
    from "5.IH"(1) [OF m] obtain u where
      u: "s = u @ s1" "pc1 = last_cp pc u" "rx_sem a pc u s1" by auto
    from "5.IH"(2) [OF m refl refl l n] obtain v where
      v: "s1 = v @ s'" "pc' = last_cp pc1 v" "rx_sem (Star a) pc1 v s'" by auto
    from u l have "u \<noteq> []" by auto
    with u v have "rx_sem (Star a) pc (u @ v) s'"
      by (auto intro: sem_StarS)
    with u v show ?thesis
      by (intro exI [of _ "u @ v"]) (simp add: last_cp_append)
  qed
next
  case (6 k a pc s g)
  from "6.prems" obtain g1 where "(pc', s', g1) \<in> set (rx_run a (pc, s, g))"
    by auto
  from "6.IH" [OF this] show ?case by (auto intro: sem_Grp)
next
  case (7 pc s g)
  then show ?case by (auto split: if_splits intro: sem_Bol)
next
  case (8 pc s g)
  then show ?case by (auto split: if_splits intro: sem_Eol)
next
  case (9 pc s g)
  then show ?case by (auto split: if_splits intro: sem_Wordb)
qed



lemma mem_Seq:
  "x \<in> set (rx_run (Seq a b) st) \<longleftrightarrow> (\<exists>y\<in>set (rx_run a st). x \<in> set (rx_run b y))"
  by simp

lemma mem_Star:
  "x \<in> set (rx_run (Star a) (pc, s, g)) \<longleftrightarrow>
     x = (pc, s, g) \<or>
     (\<exists>pc1 s1 g1. (pc1, s1, g1) \<in> set (rx_run a (pc, s, g)) \<and> length s1 < length s
        \<and> x \<in> set (rx_run (Star a) (pc1, s1, g1)))"
proof -
  have eq: "rx_run (Star a) (pc, s, g) = concat (map (\<lambda>(pc', s', g').
                    if length s' < length s then rx_run (Star a) (pc', s', g') else [])
                 (rx_run a (pc, s, g))) @ [(pc, s, g)]"
    by (rule rx_run_Star)
  show ?thesis
    unfolding eq by (auto split: if_splits)
qed

lemma mem_Grp:
  "(pc', s', g') \<in> set (rx_run (Grp k a) (pc, s, g)) \<longleftrightarrow>
     (\<exists>g1. (pc', s', g1) \<in> set (rx_run a (pc, s, g))
        \<and> g' = (k, take (length s - length s') s) # g1)"
  by (auto intro!: rev_image_eqI)



lemma sem_needs: "rx_sem r pc w rest \<Longrightarrow> needs P r \<Longrightarrow> \<exists>c\<in>set w. P c"
  by (induction rule: rx_sem.induct) auto

lemma run_none:
  assumes "needs P r" and "\<forall>c\<in>set s. \<not> P c"
  shows "rx_run r (pc, s, g) = []"
proof (rule ccontr)
  assume "rx_run r (pc, s, g) \<noteq> []"
  then obtain pc' s' g' where "(pc', s', g') \<in> set (rx_run r (pc, s, g))"
    by (cases "rx_run r (pc, s, g)") auto
  from run_sound [OF this] obtain w where w: "s = w @ s'" "rx_sem r pc w s'"
    by auto
  from sem_needs [OF w(2) assms(1)] obtain c where "c \<in> set w" "P c" by blast
  with w(1) assms(2) show False by auto
qed

lemma first_none:
  "needs P r \<Longrightarrow> \<forall>c\<in>set s. \<not> P c \<Longrightarrow> rx_first r (pc, s, g) = None"
  by (simp add: rx_first_def run_none)

lemma sub_from_none:
  "needs P r \<Longrightarrow> \<forall>c\<in>set s. \<not> P c \<Longrightarrow> sub_from r repl pc s = s"
proof (induction s arbitrary: pc)
  case Nil
  then have "rx_first r (pc, [], []) = None" by (rule first_none)
  then show ?case by (subst sub_from_unfold) simp
next
  case (Cons c cs)
  from Cons.prems have "rx_first r (pc, c # cs, []) = None" by (rule first_none)
  moreover from Cons have "sub_from r repl (Some c) cs = cs" by simp
  ultimately show ?case by (subst sub_from_unfold) simp
qed

lemma re_sub_none:
  "needs P r \<Longrightarrow> \<forall>c\<in>set s. \<not> P c \<Longrightarrow> re_sub r repl s = s"
  by (simp add: re_sub_def sub_from_none)

lemma re_match_none:
  "needs P r \<Longrightarrow> \<forall>c\<in>set s. \<not> P c \<Longrightarrow> re_match r s = None"
  by (simp add: re_match_def first_none)

lemma search_from_none:
  "needs P r \<Longrightarrow> \<forall>c\<in>set s. \<not> P c \<Longrightarrow> search_from r pc s = None"
  by (induction s arbitrary: pc) (simp_all add: first_none)

lemma re_search_none:
  "needs P r \<Longrightarrow> \<forall>c\<in>set s. \<not> P c \<Longrightarrow> re_search r s = None"
  by (simp add: re_search_def search_from_none)

lemma run_complete:
  "rx_sem r pc w rest \<Longrightarrow> \<exists>g'. (last_cp pc w, rest, g') \<in> set (rx_run r (pc, w @ rest, g))"
proof (induction arbitrary: g rule: rx_sem.induct)
  case (sem_Eps pc rest)
  show ?case by simp
next
  case (sem_Cls p c pc rest)
  then show ?case by (simp add: last_cp_def)
next
  case (sem_Seq a pc u v rest b)
  from sem_Seq.IH(1) [of g] obtain g1 where
    m: "(last_cp pc u, v @ rest, g1) \<in> set (rx_run a (pc, u @ v @ rest, g))" by blast
  from sem_Seq.IH(2) [of g1] obtain g2 where
    n: "(last_cp (last_cp pc u) v, rest, g2) \<in> set (rx_run b (last_cp pc u, v @ rest, g1))"
    by blast
  from m n have "(last_cp (last_cp pc u) v, rest, g2) \<in> set (rx_run (Seq a b) (pc, u @ v @ rest, g))"
    unfolding mem_Seq by (rule bexI [rotated])
  then show ?case unfolding last_cp_append append_assoc by (rule exI)
next
  case (sem_AltL a pc w rest b)
  from sem_AltL.IH [of g] obtain g1 where
    "(last_cp pc w, rest, g1) \<in> set (rx_run a (pc, w @ rest, g))" by blast
  then have "(last_cp pc w, rest, g1) \<in> set (rx_run (Alt a b) (pc, w @ rest, g))" by simp
  then show ?case by (rule exI)
next
  case (sem_AltR b pc w rest a)
  from sem_AltR.IH [of g] obtain g1 where
    "(last_cp pc w, rest, g1) \<in> set (rx_run b (pc, w @ rest, g))" by blast
  then have "(last_cp pc w, rest, g1) \<in> set (rx_run (Alt a b) (pc, w @ rest, g))" by simp
  then show ?case by (rule exI)
next
  case (sem_Star0 a pc rest)
  have "(pc, rest, g) \<in> set (rx_run (Star a) (pc, rest, g))"
    by (subst mem_Star) simp
  then show ?case by (simp only: last_cp_Nil append_Nil) (rule exI)
next
  case (sem_StarS a pc u v rest)
  from sem_StarS.IH(1) [of g] obtain g1 where
    m: "(last_cp pc u, v @ rest, g1) \<in> set (rx_run a (pc, u @ v @ rest, g))" by blast
  from sem_StarS.IH(2) [of g1] obtain g2 where
    n: "(last_cp (last_cp pc u) v, rest, g2) \<in> set (rx_run (Star a) (last_cp pc u, v @ rest, g1))"
    by blast
  from \<open>u \<noteq> []\<close> have l: "length (v @ rest) < length (u @ v @ rest)" by simp
  from m n l have "(last_cp (last_cp pc u) v, rest, g2) \<in> set (rx_run (Star a) (pc, u @ v @ rest, g))"
    by (subst mem_Star) (intro disjI2 exI conjI)
  then show ?case unfolding last_cp_append append_assoc by (rule exI)
next
  case (sem_Grp a pc w rest k)
  from sem_Grp.IH [of g] obtain g1 where
    h: "(last_cp pc w, rest, g1) \<in> set (rx_run a (pc, w @ rest, g))" by blast
  have "(last_cp pc w, rest, (k, take (length (w @ rest) - length rest) (w @ rest)) # g1)
      \<in> set (rx_run (Grp k a) (pc, w @ rest, g))"
    by (subst mem_Grp) (rule exI [of _ g1], rule conjI [OF h refl])
  then show ?case by (rule exI)
next
  case (sem_Bol rest)
  show ?case by simp
next
  case (sem_Eol rest pc)
  then show ?case by auto
next
  case (sem_Wordb pc rest)
  then show ?case by auto
qed


lemma run_nonempty_iff:
  "rx_run r (pc, s, g) \<noteq> [] \<longleftrightarrow> (\<exists>w rest. s = w @ rest \<and> rx_sem r pc w rest)"
proof
  assume "rx_run r (pc, s, g) \<noteq> []"
  then obtain pc' s' g' where "(pc', s', g') \<in> set (rx_run r (pc, s, g))"
    by (cases "rx_run r (pc, s, g)") auto
  from run_sound [OF this] show "\<exists>w rest. s = w @ rest \<and> rx_sem r pc w rest" by auto
next
  assume "\<exists>w rest. s = w @ rest \<and> rx_sem r pc w rest"
  then obtain w rest where w: "s = w @ rest" "rx_sem r pc w rest" by blast
  from run_complete [OF w(2), of g] w(1) show "rx_run r (pc, s, g) \<noteq> []" by auto
qed

lemma first_Some_iff:
  "rx_first r (pc, s, g) \<noteq> None \<longleftrightarrow> (\<exists>w rest. s = w @ rest \<and> rx_sem r pc w rest)"
proof -
  have "rx_first r (pc, s, g) \<noteq> None \<longleftrightarrow> rx_run r (pc, s, g) \<noteq> []"
    by (simp add: rx_first_def split: list.splits)
  then show ?thesis by (simp only: run_nonempty_iff)
qed

lemma search_from_iff:
  "search_from r pc s \<noteq> None \<longleftrightarrow>
     (\<exists>pre w rest. s = pre @ w @ rest \<and> rx_sem r (last_cp pc pre) w rest)"
proof (induction s arbitrary: pc)
  case Nil
  have "search_from r pc [] \<noteq> None \<longleftrightarrow> rx_first r (pc, [], []) \<noteq> None" by simp
  also have "\<dots> \<longleftrightarrow> (\<exists>w rest. [] = w @ rest \<and> rx_sem r pc w rest)"
    by (rule first_Some_iff)
  also have "\<dots> \<longleftrightarrow> (\<exists>pre w rest. [] = pre @ w @ rest \<and> rx_sem r (last_cp pc pre) w rest)"
    by auto
  finally show ?case .
next
  case (Cons c cs)
  have "search_from r pc (c # cs) \<noteq> None \<longleftrightarrow>
          rx_first r (pc, c # cs, []) \<noteq> None \<or> search_from r (Some c) cs \<noteq> None"
    by (simp split: option.splits)
  also have "\<dots> \<longleftrightarrow> (\<exists>w rest. c # cs = w @ rest \<and> rx_sem r pc w rest)
        \<or> (\<exists>pre w rest. cs = pre @ w @ rest \<and> rx_sem r (last_cp (Some c) pre) w rest)"
    by (simp only: first_Some_iff Cons.IH)
  also have "\<dots> \<longleftrightarrow> (\<exists>pre w rest. c # cs = pre @ w @ rest \<and> rx_sem r (last_cp pc pre) w rest)"
    (is "?L \<longleftrightarrow> ?R")
  proof
    assume ?L
    then show ?R
    proof
      assume "\<exists>w rest. c # cs = w @ rest \<and> rx_sem r pc w rest"
      then obtain w rest where "c # cs = [] @ w @ rest" "rx_sem r (last_cp pc []) w rest" by auto
      then show ?R by blast
    next
      assume "\<exists>pre w rest. cs = pre @ w @ rest \<and> rx_sem r (last_cp (Some c) pre) w rest"
      then obtain pre w rest where p: "cs = pre @ w @ rest" "rx_sem r (last_cp (Some c) pre) w rest"
        by blast
      have "last_cp (Some c) pre = last_cp pc (c # pre)" by (simp add: last_cp_def)
      with p have "c # cs = (c # pre) @ w @ rest" "rx_sem r (last_cp pc (c # pre)) w rest" by simp_all
      then show ?R by blast
    qed
  next
    assume ?R
    then obtain pre w rest where p: "c # cs = pre @ w @ rest" "rx_sem r (last_cp pc pre) w rest"
      by blast
    show ?L
    proof (cases pre)
      case Nil
      with p show ?thesis by auto
    next
      case (Cons d ds)
      with p have "d = c" "cs = ds @ w @ rest" by simp_all
      moreover have "last_cp pc (d # ds) = last_cp (Some d) ds" by (simp add: last_cp_def)
      ultimately show ?thesis using p Cons by auto
    qed
  qed
  finally show ?case .
qed

section \<open>Properties of the publisher cleaner\<close>

lemmas rx_defs = seqs_def lit_def chr_def Plus_def Opt_def digit_def space_def unit_def ago_def
lemmas re_defs = re_sub_def re_match_def re_search_def rx_first_def
lemmas pat_defs = TIME_RE_def TIME_ONLY_RE_def ON_MSN_RE_def MSN_DELIVERY_RE_def PROVIDED_RE_def
  TRAILING_TIME_RE_def EMPTY_PARENS_RE_def SPACES_RE_def
lemmas cls_defs = isspace_def isdecimal_def in_ranges_def space_ranges_def decimal_ranges_def

lemma needs_patterns:
  "needs isspace ON_MSN_RE"
  "needs (\<lambda>c. c = 37197) MSN_DELIVERY_RE"
  "needs (\<lambda>c. c = 25552 \<or> c = 37197) PROVIDED_RE"
  "needs isdecimal TRAILING_TIME_RE"
  "needs isdecimal TIME_RE"
  "needs (\<lambda>c. c = 40) EMPTY_PARENS_RE"
  "needs isspace SPACES_RE"
  "needs isdecimal TIME_ONLY_RE"
  by (simp_all add: pat_defs rx_defs)

lemma dropWhile_id: "(case s of [] \<Rightarrow> True | c # cs \<Rightarrow> \<not> P c) \<Longrightarrow> dropWhile P s = s"
  by (cases s) simp_all

lemma strip_id: "\<forall>c\<in>set s. \<not> isspace c \<Longrightarrow> strip s = s"
proof -
  assume a: "\<forall>c\<in>set s. \<not> isspace c"
  then have "dropWhile isspace s = s" by (cases s) simp_all
  moreover from a have "dropWhile isspace (rev s) = rev s" by (cases "rev s") auto
  ultimately show ?thesis by (simp add: strip_def lstrip_def rstrip_def)
qed

lemma strip_chars_id:
  assumes "case s of [] \<Rightarrow> True | c # cs \<Rightarrow> c \<notin> set chars \<and> last s \<notin> set chars"
  shows "strip_chars chars s = s"
proof (cases s)
  case Nil
  then show ?thesis by (simp add: strip_chars_def)
next
  case (Cons c cs)
  with assms have h: "c \<notin> set chars" and l: "last s \<notin> set chars" by simp_all
  from Cons h have 1: "dropWhile (\<lambda>c. c \<in> set chars) s = s" by simp
  from Cons have ne: "s \<noteq> []" by simp
  have "rev s = rev (butlast s @ [last s])" using ne by simp
  also have "\<dots> = last s # rev (butlast s)" by simp
  finally have r: "rev s = last s # rev (butlast s)" .
  from l have 2: "dropWhile (\<lambda>c. c \<in> set chars) (rev s) = rev s"
    by (subst r, subst r) simp
  from 1 2 show ?thesis by (simp add: strip_chars_def)
qed

lemma replace_char_id: "a \<notin> set s \<Longrightarrow> replace_char a b s = s"
  by (induction s) (auto simp: replace_char_def)

lemma clean_plain:
  assumes "plain_name y"
  shows "clean_source_text y = y"
proof (cases "y = []")
  case True
  then show ?thesis by (simp add: clean_source_text_def)
next
  case False
  from assms have sp: "\<forall>c\<in>set y. \<not> isspace c" and dg: "\<forall>c\<in>set y. \<not> isdecimal c"
    and p40: "\<forall>c\<in>set y. \<not> c = 40" and dl: "\<forall>c\<in>set y. \<not> c = 37197"
    and pv: "\<forall>c\<in>set y. \<not> (c = 25552 \<or> c = 37197)"
    and d1: "12539 \<notin> set y" and d2: "8226 \<notin> set y" and d3: "183 \<notin> set y"
    and ends: "case y of [] \<Rightarrow> True | c # cs \<Rightarrow> c \<notin> set SEPARATORS \<and> last y \<notin> set SEPARATORS"
    by (auto simp: plain_name_def list_all_iff)
  note st = strip_id [OF sp]
  note s3 = re_sub_none [OF needs_patterns(1) sp]
  note s4 = re_sub_none [OF needs_patterns(2) dl]
  note s5 = re_sub_none [OF needs_patterns(3) pv]
  note s6 = replace_char_id [OF d1] replace_char_id [OF d2] replace_char_id [OF d3]
  note s7 = re_sub_none [OF needs_patterns(4) dg]
  note s8 = re_sub_none [OF needs_patterns(5) dg]
  note s9 = re_sub_none [OF needs_patterns(6) p40]
  note s10 = re_sub_none [OF needs_patterns(7) sp]
  note s11 = strip_chars_id [OF ends]
  note s12 = re_match_none [OF needs_patterns(8) dg]
  from False show ?thesis
    unfolding clean_source_text_def Let_def
    by (simp only: st s3 s4 s5 s6 s7 s8 s9 s10 s11 s12 if_False simp_thms)
qed


lemma cls_facts:
  "\<not> isspace 40" "\<not> isspace 41" "\<not> isspace 97" "isspace 32" "\<not> isspace 49" "\<not> isspace 26085"
  "\<not> isdecimal 40" "\<not> isdecimal 41" "\<not> isdecimal 97" "\<not> isdecimal 32" "isdecimal 49"
  "\<not> isdecimal 26085"
  by (simp_all add: cls_defs)

lemmas run_eval = rx_defs re_defs pat_defs cls_facts rx_run_Star sub_from_unfold

lemma parens_eval:
  "re_sub EMPTY_PARENS_RE [] [40, 41, 40, 41] = [40, 41]"
  "re_sub EMPTY_PARENS_RE [] [40, 41] = []"
  by (simp_all add: run_eval)

lemma trailing_eval: "re_sub TRAILING_TIME_RE [] [97, 32, 49, 26085] = [97]"
  by (simp add: run_eval)

lemma clean_parens2: "clean_source_text [40, 41, 40, 41] = [40, 41]"
proof -
  let ?x = "[40, 41, 40, 41] :: ustr" and ?y = "[40, 41] :: ustr"
  have sp: "\<forall>c\<in>set ?x. \<not> isspace c" and dg: "\<forall>c\<in>set ?x. \<not> isdecimal c"
    and dl: "\<forall>c\<in>set ?x. \<not> c = 37197" and pv: "\<forall>c\<in>set ?x. \<not> (c = 25552 \<or> c = 37197)"
    and sp': "\<forall>c\<in>set ?y. \<not> isspace c" and dg': "\<forall>c\<in>set ?y. \<not> isdecimal c"
    by (simp_all add: cls_facts)
  note st = strip_id [OF sp] strip_id [OF sp']
  note s3 = re_sub_none [OF needs_patterns(1) sp]
  note s4 = re_sub_none [OF needs_patterns(2) dl]
  note s5 = re_sub_none [OF needs_patterns(3) pv]
  have s6: "replace_char 183 32 (replace_char 8226 32 (replace_char 12539 32 ?x)) = ?x"
    by (simp add: replace_char_def)
  note s7 = re_sub_none [OF needs_patterns(4) dg]
  note s8 = re_sub_none [OF needs_patterns(5) dg]
  note s9 = parens_eval(1)
  note s10 = re_sub_none [OF needs_patterns(7) sp']
  have s11: "strip_chars SEPARATORS ?y = ?y"
    by (simp add: strip_chars_def SEPARATORS_def)
  note s12 = re_match_none [OF needs_patterns(8) dg']
  show ?thesis
    unfolding clean_source_text_def Let_def
    by (simp only: st s3 s4 s5 s6 s7 s8 s9 s10 s11 s12 if_False simp_thms list.simps)
qed

lemma clean_parens1: "clean_source_text [40, 41] = []"
proof -
  let ?x = "[40, 41] :: ustr" and ?y = "[] :: ustr"
  have sp: "\<forall>c\<in>set ?x. \<not> isspace c" and dg: "\<forall>c\<in>set ?x. \<not> isdecimal c"
    and dl: "\<forall>c\<in>set ?x. \<not> c = 37197" and pv: "\<forall>c\<in>set ?x. \<not> (c = 25552 \<or> c = 37197)"
    and sp': "\<forall>c\<in>set ?y. \<not> isspace c" and dg': "\<forall>c\<in>set ?y. \<not> isdecimal c"
    by (simp_all add: cls_facts)
  note st = strip_id [OF sp] strip_id [OF sp']
  note s3 = re_sub_none [OF needs_patterns(1) sp]
  note s4 = re_sub_none [OF needs_patterns(2) dl]
  note s5 = re_sub_none [OF needs_patterns(3) pv]
  have s6: "replace_char 183 32 (replace_char 8226 32 (replace_char 12539 32 ?x)) = ?x"
    by (simp add: replace_char_def)
  note s7 = re_sub_none [OF needs_patterns(4) dg]
  note s8 = re_sub_none [OF needs_patterns(5) dg]
  note s9 = parens_eval(2)
  note s10 = re_sub_none [OF needs_patterns(7) sp']
  have s11: "strip_chars SEPARATORS ?y = ?y"
    by (simp add: strip_chars_def SEPARATORS_def)
  note s12 = re_match_none [OF needs_patterns(8) dg']
  show ?thesis
    unfolding clean_source_text_def Let_def
    by (simp only: st s3 s4 s5 s6 s7 s8 s9 s10 s11 s12 if_False if_True simp_thms list.simps)
qed

lemma clean_a_1_day: "clean_source_text [97, 32, 49, 26085] = [97]"
proof -
  let ?x = "[97, 32, 49, 26085] :: ustr" and ?y = "[97] :: ustr"
  have o: "\<forall>c\<in>set ?x. \<not> (c = 111 \<or> c = 79)"
    and dl: "\<forall>c\<in>set ?x. \<not> c = 37197" and pv: "\<forall>c\<in>set ?x. \<not> (c = 25552 \<or> c = 37197)"
    and sp': "\<forall>c\<in>set ?y. \<not> isspace c" and dg': "\<forall>c\<in>set ?y. \<not> isdecimal c"
    and p40: "\<forall>c\<in>set ?y. \<not> c = 40"
    by (simp_all add: cls_facts)
  have no: "needs (\<lambda>c. c = 111 \<or> c = 79) ON_MSN_RE"
    by (simp add: pat_defs rx_defs)
  have st: "strip ?x = ?x"
    by (simp add: strip_def lstrip_def rstrip_def cls_facts)
  note st' = strip_id [OF sp']
  note s3 = re_sub_none [OF no o]
  note s4 = re_sub_none [OF needs_patterns(2) dl]
  note s5 = re_sub_none [OF needs_patterns(3) pv]
  have s6: "replace_char 183 32 (replace_char 8226 32 (replace_char 12539 32 ?x)) = ?x"
    by (simp add: replace_char_def)
  note s7 = trailing_eval
  note s8 = re_sub_none [OF needs_patterns(5) dg']
  note s9 = re_sub_none [OF needs_patterns(6) p40]
  note s10 = re_sub_none [OF needs_patterns(7) sp']
  have s11: "strip_chars SEPARATORS ?y = ?y"
    by (simp add: strip_chars_def SEPARATORS_def)
  note s12 = re_match_none [OF needs_patterns(8) dg']
  show ?thesis
    unfolding clean_source_text_def Let_def
    by (simp only: st st' s3 s4 s5 s6 s7 s8 s9 s10 s11 s12 if_False simp_thms list.simps)
qed

text \<open>
  Claim C2 as stated fails: one pass of the cleaner on \<open>()()\<close> removes the pair of
  parentheses at the end and returns \<open>()\<close>, and a second pass removes that pair too.
\<close>

theorem clean_not_idempotent:
  "clean_source_text (clean_source_text [40, 41, 40, 41]) \<noteq> clean_source_text [40, 41, 40, 41]"
  by (simp add: clean_parens2 clean_parens1)

text \<open>
  Claim C2, amended. The cleaner is one pass of strips and not a fixed point of them. It
  leaves every plain name as it is, so that \<open>clean(clean(x)) = clean(x)\<close> whenever
  \<open>clean(x)\<close> is a plain name: one without whitespace, decimal digits, an opening
  parenthesis, the first character of the markers "provided by" and "delivered by", a dot
  that the cleaner turns into a space, or a separator at either end.
\<close>

theorem clean_idempotent_on_plain:
  "plain_name (clean_source_text x) \<Longrightarrow>
     clean_source_text (clean_source_text x) = clean_source_text x"
  by (rule clean_plain)

text \<open>The amended claim at \<open>a 1<day>\<close>, which the cleaner turns into \<open>a\<close>.\<close>

theorem clean_idempotent_on_plain_witness:
  "plain_name (clean_source_text [97, 32, 49, 26085])
   \<and> clean_source_text [97, 32, 49, 26085] = [97]
   \<and> clean_source_text (clean_source_text [97, 32, 49, 26085])
       = clean_source_text [97, 32, 49, 26085]"
proof -
  have p: "plain_name (clean_source_text [97, 32, 49, 26085])"
    by (simp add: clean_a_1_day plain_name_def cls_facts SEPARATORS_def)
  from p clean_idempotent_on_plain [OF p] clean_a_1_day show ?thesis by simp
qed

section \<open>Properties of the timing classifier\<close>

inductive_simps sem_Eps_iff: "rx_sem Eps pc w rest"
inductive_simps sem_Cls_iff: "rx_sem (Cls p) pc w rest"
inductive_simps sem_Seq_iff: "rx_sem (Seq a b) pc w rest"
inductive_simps sem_Alt_iff: "rx_sem (Alt a b) pc w rest"
inductive_simps sem_Grp_iff: "rx_sem (Grp k a) pc w rest"
inductive_simps sem_Bol_iff: "rx_sem Bol pc w rest"
inductive_simps sem_Eol_iff: "rx_sem Eol pc w rest"
inductive_simps sem_Star_iff: "rx_sem (Star a) pc w rest"


lemma sem_Star_Cls: "rx_sem (Star (Cls p)) pc w rest \<longleftrightarrow> list_all p w"
proof
  assume "rx_sem (Star (Cls p)) pc w rest"
  then show "list_all p w"
    by (induction "Star (Cls p)" pc w rest rule: rx_sem.induct) (auto simp: sem_Cls_iff)
next
  assume "list_all p w"
  then show "rx_sem (Star (Cls p)) pc w rest"
  proof (induction w arbitrary: pc)
    case Nil
    show ?case by (rule sem_Star0)
  next
    case (Cons c cs)
    then have "p c" and r: "rx_sem (Star (Cls p)) (last_cp pc [c]) cs rest" by simp_all
    from \<open>p c\<close> have a: "rx_sem (Cls p) pc [c] (cs @ rest)" by (rule sem_Cls)
    have "rx_sem (Star (Cls p)) pc ([c] @ cs) rest" by (rule sem_StarS [OF a _ r]) simp
    then show ?case by simp
  qed
qed


lemma lit_Cons: "lit (c # s) = Seq (chr c) (lit s)"
  by (simp add: lit_def)

lemma sem_chr: "rx_sem (chr c) pc w rest \<longleftrightarrow> w = [c]"
  by (auto simp: chr_def sem_Cls_iff)

lemma sem_lit: "rx_sem (lit s) pc w rest \<longleftrightarrow> w = s"
proof (induction s arbitrary: pc w)
  case Nil
  show ?case by (simp add: lit_def sem_Eps_iff)
next
  case (Cons c s)
  show ?case by (auto simp: lit_Cons sem_Seq_iff sem_chr Cons.IH)
qed

lemma sem_unit: "rx_sem unit pc w rest \<longleftrightarrow> is_unit w"
  by (simp add: unit_def sem_Alt_iff sem_lit is_unit_def)

lemma sem_spaces: "rx_sem (Star space) pc w rest \<longleftrightarrow> list_all isspace w"
  by (simp add: space_def sem_Star_Cls)

lemma sem_digits: "rx_sem (Plus digit) pc w rest \<longleftrightarrow> w \<noteq> [] \<and> list_all isdecimal w"
proof (cases w)
  case Nil
  then show ?thesis by (simp add: Plus_def digit_def sem_Seq_iff sem_Cls_iff)
next
  case (Cons c cs)
  have "(\<exists>u v. c # cs = u @ v \<and> (\<exists>d. u = [d] \<and> isdecimal d) \<and> list_all isdecimal v)
        \<longleftrightarrow> isdecimal c \<and> list_all isdecimal cs"
    by (auto intro: exI [of _ "[c]"])
  with Cons show ?thesis
    by (simp add: Plus_def digit_def sem_Seq_iff sem_Cls_iff sem_Star_Cls)
qed

lemma sem_opt_ago:
  "rx_sem (Opt (Grp k (Alt (chr ago) Eps))) pc w rest \<longleftrightarrow> w = [ago] \<or> w = []"
  by (auto simp: Opt_def sem_Alt_iff sem_Grp_iff sem_chr sem_Eps_iff)

lemma sem_tail4: "rx_sem (Seq (chr ago) Eps) pc w rest \<longleftrightarrow> w = [ago]"
  by (simp add: sem_Seq_iff sem_chr sem_Eps_iff)

lemma sem_tail3:
  "rx_sem (Seq (Star space) (Seq (chr ago) Eps)) pc w rest \<longleftrightarrow>
     (\<exists>w2. w = w2 @ [ago] \<and> list_all isspace w2)"
  by (simp only: sem_Seq_iff [of "Star space"] sem_spaces sem_tail4) blast

lemma sem_tail2:
  "rx_sem (Seq (Grp 2 unit) (Seq (Star space) (Seq (chr ago) Eps))) pc w rest \<longleftrightarrow>
     (\<exists>u w2. w = u @ w2 @ [ago] \<and> is_unit u \<and> list_all isspace w2)"
  by (simp only: sem_Seq_iff [of "Grp 2 unit"] sem_Grp_iff sem_unit sem_tail3) blast

lemma sem_tail1:
  "rx_sem (Seq (Star space) (Seq (Grp 2 unit) (Seq (Star space) (Seq (chr ago) Eps)))) pc w rest \<longleftrightarrow>
     (\<exists>w1 u w2. w = w1 @ u @ w2 @ [ago] \<and> list_all isspace w1 \<and> is_unit u \<and> list_all isspace w2)"
  by (simp only: sem_Seq_iff [of "Star space" "Seq (Grp 2 unit) r" for r] sem_spaces sem_tail2) blast

lemma TIME_RE_unfold:
  "TIME_RE = Seq (Grp 1 (Plus digit)) (Seq (Star space) (Seq (Grp 2 unit)
               (Seq (Star space) (Seq (chr ago) Eps))))"
  by (simp add: TIME_RE_def seqs_def)

lemma sem_TIME_RE: "rx_sem TIME_RE pc w rest \<longleftrightarrow> time_phrase False w"
  unfolding TIME_RE_unfold time_phrase_def
  by (simp only: sem_Seq_iff [of "Grp 1 (Plus digit)"] sem_Grp_iff sem_digits sem_tail1 simp_thms)
     blast


lemma sem_only1: "rx_sem (Seq Eol Eps) pc w rest \<longleftrightarrow> w = [] \<and> at_end rest"
  by (auto simp: sem_Seq_iff sem_Eol_iff sem_Eps_iff at_end_def)

lemma sem_only2:
  "rx_sem (Seq (Star space) (Seq Eol Eps)) pc w rest \<longleftrightarrow> list_all isspace w \<and> at_end rest"
  by (simp only: sem_Seq_iff [of "Star space"] sem_spaces sem_only1) auto

lemma sem_only3:
  "rx_sem (Seq (Opt (Grp 3 (Alt (chr ago) Eps))) (Seq (Star space) (Seq Eol Eps))) pc w rest \<longleftrightarrow>
     (\<exists>a w3. w = a @ w3 \<and> (a = [ago] \<or> a = []) \<and> list_all isspace w3 \<and> at_end rest)"
  by (simp only: sem_Seq_iff [of "Opt r" for r] sem_opt_ago sem_only2) blast?

lemma sem_only4:
  "rx_sem (Seq (Star space) (Seq (Opt (Grp 3 (Alt (chr ago) Eps)))
      (Seq (Star space) (Seq Eol Eps)))) pc w rest \<longleftrightarrow>
     (\<exists>w2 a w3. w = w2 @ a @ w3 \<and> list_all isspace w2 \<and> (a = [ago] \<or> a = [])
        \<and> list_all isspace w3 \<and> at_end rest)"
  by (simp only: sem_Seq_iff [of "Star space" "Seq (Opt r) r'" for r r'] sem_spaces sem_only3) blast?

lemma sem_only5:
  "rx_sem (Seq (Grp 2 unit) (Seq (Star space) (Seq (Opt (Grp 3 (Alt (chr ago) Eps)))
      (Seq (Star space) (Seq Eol Eps))))) pc w rest \<longleftrightarrow>
     (\<exists>u w2 a w3. w = u @ w2 @ a @ w3 \<and> is_unit u \<and> list_all isspace w2 \<and> (a = [ago] \<or> a = [])
        \<and> list_all isspace w3 \<and> at_end rest)"
  by (simp only: sem_Seq_iff [of "Grp 2 unit"] sem_Grp_iff sem_unit sem_only4) blast?

lemma sem_only6:
  "rx_sem (Seq (Star space) (Seq (Grp 2 unit) (Seq (Star space)
      (Seq (Opt (Grp 3 (Alt (chr ago) Eps))) (Seq (Star space) (Seq Eol Eps)))))) pc w rest \<longleftrightarrow>
     (\<exists>w1 u w2 a w3. w = w1 @ u @ w2 @ a @ w3 \<and> list_all isspace w1 \<and> is_unit u
        \<and> list_all isspace w2 \<and> (a = [ago] \<or> a = []) \<and> list_all isspace w3 \<and> at_end rest)"
  by (simp only: sem_Seq_iff [of "Star space" "Seq (Grp 2 unit) r" for r] sem_spaces sem_only5) blast?

lemma sem_only7:
  "rx_sem (Seq (Grp 1 (Plus digit)) (Seq (Star space) (Seq (Grp 2 unit) (Seq (Star space)
      (Seq (Opt (Grp 3 (Alt (chr ago) Eps))) (Seq (Star space) (Seq Eol Eps))))))) pc w rest \<longleftrightarrow>
     (\<exists>ds w1 u w2 a w3. w = ds @ w1 @ u @ w2 @ a @ w3 \<and> ds \<noteq> [] \<and> list_all isdecimal ds
        \<and> list_all isspace w1 \<and> is_unit u
        \<and> list_all isspace w2 \<and> (a = [ago] \<or> a = []) \<and> list_all isspace w3 \<and> at_end rest)"
  by (simp only: sem_Seq_iff [of "Grp 1 (Plus digit)"] sem_Grp_iff sem_digits sem_only6) blast?

lemma sem_only8:
  "rx_sem (Seq (Star space) (Seq (Grp 1 (Plus digit)) (Seq (Star space) (Seq (Grp 2 unit)
      (Seq (Star space) (Seq (Opt (Grp 3 (Alt (chr ago) Eps)))
      (Seq (Star space) (Seq Eol Eps)))))))) pc w rest \<longleftrightarrow>
     (\<exists>w0 ds w1 u w2 a w3. w = w0 @ ds @ w1 @ u @ w2 @ a @ w3 \<and> list_all isspace w0
        \<and> ds \<noteq> [] \<and> list_all isdecimal ds \<and> list_all isspace w1 \<and> is_unit u
        \<and> list_all isspace w2 \<and> (a = [ago] \<or> a = []) \<and> list_all isspace w3 \<and> at_end rest)"
  by (simp only: sem_Seq_iff [of "Star space" "Seq (Grp 1 (Plus digit)) r" for r] sem_spaces sem_only7)
     blast?

lemma TIME_ONLY_RE_unfold:
  "TIME_ONLY_RE = Seq Bol (Seq (Star space) (Seq (Grp 1 (Plus digit)) (Seq (Star space)
      (Seq (Grp 2 unit) (Seq (Star space) (Seq (Opt (Grp 3 (Alt (chr ago) Eps)))
      (Seq (Star space) (Seq Eol Eps))))))))"
  by (simp add: TIME_ONLY_RE_def seqs_def)

lemma sem_TIME_ONLY_RE:
  "rx_sem TIME_ONLY_RE None w rest \<longleftrightarrow>
     (\<exists>w0 ds w1 u w2 a w3. w = w0 @ ds @ w1 @ u @ w2 @ a @ w3 \<and> list_all isspace w0
        \<and> ds \<noteq> [] \<and> list_all isdecimal ds \<and> list_all isspace w1 \<and> is_unit u
        \<and> list_all isspace w2 \<and> (a = [ago] \<or> a = []) \<and> list_all isspace w3 \<and> at_end rest)"
  unfolding TIME_ONLY_RE_unfold
  by (simp only: sem_Seq_iff [of Bol] sem_Bol_iff sem_only8 last_cp_Nil) auto


lemma isspace_newline: "isspace 10"
  by (simp add: isspace_def in_ranges_def space_ranges_def)

lemma dropWhile_hd: "dropWhile P s = [] \<or> \<not> P (hd (dropWhile P s))"
  by (metis hd_dropWhile)

lemma ends_aux:
  assumes a: "a = [] \<or> \<not> P (hd a)" and b: "b = [] \<or> \<not> P (hd b)" and r: "rev a = pre @ b"
  shows "rev b = [] \<or> (\<not> P (hd (rev b)) \<and> \<not> P (last (rev b)))"
proof (cases "b = []")
  case True
  then show ?thesis by simp
next
  case False
  with b have hb: "\<not> P (hd b)" by simp
  from False r have "rev a \<noteq> []" by simp
  then have na: "a \<noteq> []" by simp
  with a have ha: "\<not> P (hd a)" by simp
  from False have 1: "last (rev b) = hd b" by (simp add: last_rev)
  from False have 2: "hd (rev b) = last b" by (simp add: hd_rev)
  from r False have "last (rev a) = last b" by simp
  with na have 3: "last b = hd a" by (simp add: last_rev)
  from 1 2 3 ha hb show ?thesis by simp
qed

lemma strip_ends:
  "strip s = [] \<or> (\<not> isspace (hd (strip s)) \<and> \<not> isspace (last (strip s)))"
  unfolding strip_def lstrip_def rstrip_def
  by (rule ends_aux [OF dropWhile_hd dropWhile_hd takeWhile_dropWhile_id [symmetric]])

lemma match_only_stripped:
  assumes st: "t = [] \<or> (\<not> isspace (hd t) \<and> \<not> isspace (last t))"
  shows "re_match TIME_ONLY_RE t \<noteq> None \<longleftrightarrow> time_phrase True t"
proof
  assume "re_match TIME_ONLY_RE t \<noteq> None"
  then obtain w rest where t: "t = w @ rest" and "rx_sem TIME_ONLY_RE None w rest"
    unfolding re_match_def first_Some_iff by blast
  then obtain w0 ds w1 u w2 a w3 where
    w: "w = w0 @ ds @ w1 @ u @ w2 @ a @ w3" and w0: "list_all isspace w0" and
    ds: "ds \<noteq> []" "list_all isdecimal ds" and w1: "list_all isspace w1" and u: "is_unit u" and
    w2: "list_all isspace w2" and a: "a = [ago] \<or> a = []" and w3: "list_all isspace w3" and
    e: "at_end rest"
    unfolding sem_TIME_ONLY_RE by blast
  from t w ds have ne: "t \<noteq> []" by simp
  with st have h: "\<not> isspace (hd t)" and l: "\<not> isspace (last t)" by simp_all
  have "w0 = []"
  proof (rule ccontr)
    assume "w0 \<noteq> []"
    with t w have "hd t = hd w0" by simp
    moreover from \<open>w0 \<noteq> []\<close> w0 have "isspace (hd w0)" by (cases w0) simp_all
    ultimately show False using h by simp
  qed
  moreover have "rest = []"
  proof (rule ccontr)
    assume "rest \<noteq> []"
    with e have "rest = [10]" by (simp add: at_end_def)
    with t have "last t = 10" by simp
    with l isspace_newline show False by simp
  qed
  moreover have "w3 = []"
  proof (rule ccontr)
    assume n: "w3 \<noteq> []"
    with t w \<open>rest = []\<close> have "last t = last w3" by simp
    moreover from n w3 have "isspace (last w3)" by (simp add: list_all_iff)
    ultimately show False using l by simp
  qed
  ultimately have "t = ds @ w1 @ u @ w2 @ a" using t w by simp
  with ds w1 u w2 a show "time_phrase True t"
    unfolding time_phrase_def by blast
next
  assume "time_phrase True t"
  then obtain ds w1 u w2 a where
    t: "t = ds @ w1 @ u @ w2 @ a" and ds: "ds \<noteq> []" "list_all isdecimal ds" and
    w1: "list_all isspace w1" and u: "is_unit u" and w2: "list_all isspace w2" and
    a: "a = [ago] \<or> a = []"
    unfolding time_phrase_def by blast
  have "rx_sem TIME_ONLY_RE None t []"
    unfolding sem_TIME_ONLY_RE
    apply (rule exI [of _ "[]"], rule exI [of _ ds], rule exI [of _ w1], rule exI [of _ u],
           rule exI [of _ w2], rule exI [of _ a], rule exI [of _ "[]"])
    using t ds w1 u w2 a by (simp add: at_end_def)
  then have "\<exists>w rest. t = w @ rest \<and> rx_sem TIME_ONLY_RE None w rest"
    by (intro exI [of _ t] exI [of _ "[]"]) simp
  then show "re_match TIME_ONLY_RE t \<noteq> None"
    unfolding re_match_def first_Some_iff .
qed

lemma search_TIME_RE: "re_search TIME_RE s \<noteq> None \<longleftrightarrow> contains_phrase False s"
  unfolding re_search_def search_from_iff sem_TIME_RE contains_phrase_def ..

lemma is_timeish_iff:
  "is_timeish text \<longleftrightarrow> time_phrase True (strip text) \<or> contains_phrase False text"
proof (cases "text = []")
  case True
  then show ?thesis
    by (simp add: is_timeish_def strip_def lstrip_def rstrip_def time_phrase_def
        contains_phrase_def)
next
  case False
  then have "is_timeish text \<longleftrightarrow>
      re_match TIME_ONLY_RE (strip text) \<noteq> None \<or> re_search TIME_RE text \<noteq> None"
    by (simp add: is_timeish_def)
  then show ?thesis
    by (simp only: match_only_stripped [OF strip_ends] search_TIME_RE)
qed


lemma cls_facts_x4:
  "\<not> isspace 120" "\<not> isspace 52" "\<not> isspace 26085" "isspace 32"
  "\<not> isdecimal 120" "isdecimal 52" "\<not> isdecimal 26085" "\<not> isdecimal 32"
  by (simp_all add: isspace_def isdecimal_def in_ranges_def space_ranges_def decimal_ranges_def)

lemma not_timeish_x4: "\<not> is_timeish [120, 52, 26085]"
proof -
  let ?x = "[120, 52, 26085] :: ustr"
  have sp: "\<forall>c\<in>set ?x. \<not> isspace c" and ag: "\<forall>c\<in>set ?x. \<not> c = ago"
    by (simp_all add: cls_facts_x4 ago_def)
  have n: "needs (\<lambda>c. c = ago) TIME_RE"
    by (simp add: TIME_RE_def seqs_def chr_def)
  have m: "re_match TIME_ONLY_RE ?x = None"
    by (simp add: re_match_def rx_first_def TIME_ONLY_RE_def seqs_def Plus_def Opt_def digit_def
        space_def rx_run_Star cls_facts_x4)
  from strip_id [OF sp] m re_search_none [OF n ag] show ?thesis
    by (simp add: is_timeish_def)
qed

lemma phrase_4_day: "time_phrase True [52, 32, 26085]"
  unfolding time_phrase_def
  by (rule exI [of _ "[52]"], rule exI [of _ "[32]"], rule exI [of _ "[26085]"],
      rule exI [of _ "[]"], rule exI [of _ "[]"])
     (simp add: cls_facts_x4 is_unit_def)

text \<open>
  Claim C7 as stated fails: in \<open>x4<day>\<close> a number and a unit occur without the marker
  "ago", so a phrase with the marker optional appears in the string, and \<open>is_timeish\<close> is
  false.
\<close>

theorem is_timeish_needs_marker_inside:
  "\<not> is_timeish [120, 52, 26085] \<and> contains_phrase True [120, 52, 26085]"
proof -
  have "time_phrase True [52, 26085]"
    unfolding time_phrase_def
    by (rule exI [of _ "[52]"], rule exI [of _ "[]"], rule exI [of _ "[26085]"],
        rule exI [of _ "[]"], rule exI [of _ "[]"])
       (simp add: cls_facts_x4 is_unit_def)
  then have "contains_phrase True [120, 52, 26085]"
    unfolding contains_phrase_def
    by (intro exI [of _ "[120]"] exI [of _ "[52, 26085]"] exI [of _ "[]"]) simp
  with not_timeish_x4 show ?thesis by simp
qed

text \<open>
  Claim C7, amended. \<open>is_timeish(text)\<close> is true if and only if the whole trimmed string is
  a phrase \<open><number> <unit> [ago]\<close> with the marker optional, or a phrase
  \<open><number> <unit> ago\<close> with the marker present appears somewhere in the string. In
  particular \<open>is_timeish("4 <day>")\<close> is true.
\<close>

theorem is_timeish_iff_phrase:
  "(is_timeish text \<longleftrightarrow> time_phrase True (strip text) \<or> contains_phrase False text)
   \<and> is_timeish [52, 32, 26085]"
proof -
  have "strip [52, 32, 26085] = [52, 32, 26085]"
    by (simp add: strip_def lstrip_def rstrip_def cls_facts_x4)
  with phrase_4_day have "is_timeish [52, 32, 26085]"
    by (simp add: is_timeish_iff)
  with is_timeish_iff show ?thesis by simp
qed

section \<open>Properties of the publisher inference and of the publisher field\<close>

lemmas url_defs = urlparse_netloc_def strip_scheme_def scheme_char_def ascii_alpha_def
  endswith_def suffix_to_prefix startswith_def replace_char_def NAME_MAP_def Let_def

lemma netloc_port:
  "\<not> netloc_refused L (asc ''www.msn.com:443'') \<Longrightarrow>
     urlparse_netloc L (asc ''https://www.msn.com:443/ja-jp'') = Inr (asc ''www.msn.com:443'')"
  by (simp add: asc_def url_defs)

lemma netloc_plain:
  "\<not> netloc_refused L (asc ''www.msn.com'') \<Longrightarrow>
     urlparse_netloc L (asc ''https://www.msn.com/ja-jp'') = Inr (asc ''www.msn.com'')"
  by (simp add: asc_def url_defs)

lemma publisher_port:
  assumes "\<not> netloc_refused L (asc ''www.msn.com:443'')"
    and "str_lower L (asc ''www.msn.com:443'') = asc ''www.msn.com:443''"
    and "str_capitalize L (asc ''msn'') = asc ''Msn''"
  shows "publisher_from_url L (asc ''https://www.msn.com:443/ja-jp'') = asc ''Msn''"
  using assms(2,3) unfolding publisher_from_url_def netloc_port [OF assms(1)]
  by (simp add: asc_def url_defs)

lemma publisher_plain:
  assumes "\<not> netloc_refused L (asc ''www.msn.com'')"
    and "str_lower L (asc ''www.msn.com'') = asc ''www.msn.com''"
  shows "publisher_from_url L (asc ''https://www.msn.com/ja-jp'') = asc ''MSN''"
  using assms(2) unfolding publisher_from_url_def netloc_plain [OF assms(1)]
  by (simp add: asc_def url_defs)

lemma publisher_empty: "str_lower L [] = [] \<Longrightarrow> publisher_from_url L [] = []"
  by (simp add: publisher_from_url_def url_defs)

text \<open>
  Claim C8, where the code departs from it. The test for the aggregator domain is made on
  the network location, port included, and the port is cut off only afterwards: for a URL
  of host \<open>www.msn.com\<close> with a port the result is \<open>Msn\<close>, the capitalised second-level
  label, while without the port it is \<open>MSN\<close>.
\<close>

theorem publisher_from_url_with_port:
  assumes "\<not> netloc_refused L (asc ''www.msn.com'')"
    and "\<not> netloc_refused L (asc ''www.msn.com:443'')"
    and "str_lower L (asc ''www.msn.com'') = asc ''www.msn.com''"
    and "str_lower L (asc ''www.msn.com:443'') = asc ''www.msn.com:443''"
    and "str_capitalize L (asc ''msn'') = asc ''Msn''"
  shows "publisher_from_url L (asc ''https://www.msn.com/ja-jp'') = asc ''MSN''
         \<and> publisher_from_url L (asc ''https://www.msn.com:443/ja-jp'') = asc ''Msn''"
  using publisher_plain [OF assms(1,3)] publisher_port [OF assms(2,4,5)] by simp

theorem publisher_from_url_with_port_witness:
  "publisher_from_url basic_lib (asc ''https://www.msn.com/ja-jp'') = asc ''MSN''
   \<and> publisher_from_url basic_lib (asc ''https://www.msn.com:443/ja-jp'') = asc ''Msn''"
  by (rule publisher_from_url_with_port)
     (simp_all add: basic_lib_def basic_lower_def basic_capitalize_def asc_def)

text \<open>
  Claim C9. In each of the three extractors the publisher of a record is never the empty
  string, and when the selectors, the cleaning and the inference from the URL give nothing,
  it is the label of the site.
\<close>

theorem publisher_never_empty:
  "google_source L els url \<noteq> []
   \<and> yahoo_source L els url \<noteq> []
   \<and> msn_source L raw parent els url \<noteq> []
   \<and> (first_found els = [] \<and> publisher_from_url L url = [] \<longrightarrow>
        google_source L els url = asc ''Google'')
   \<and> (yahoo_scan L els = [] \<and> publisher_from_url L url = [] \<longrightarrow>
        yahoo_source L els url = asc ''Yahoo'')
   \<and> (clean_source_text raw = [] \<and> (parent \<longrightarrow> msn_scan els = [])
        \<and> publisher_from_url L url = [] \<longrightarrow>
        msn_source L raw parent els url = asc ''MSN'')"
  by (auto simp: google_source_def yahoo_source_def msn_source_def Let_def asc_def)

theorem publisher_never_empty_witness:
  "google_source basic_lib [None, Some []] [] = asc ''Google''
   \<and> yahoo_source basic_lib [None] [] = asc ''Yahoo''
   \<and> msn_source basic_lib [] True [None] [] = asc ''MSN''"
proof -
  have p: "publisher_from_url basic_lib [] = []"
    by (rule publisher_empty) (simp add: basic_lib_def basic_lower_def)
  have c: "clean_source_text [] = []" by (simp add: clean_source_text_def)
  from publisher_never_empty [of basic_lib "[None, Some []]" "[]" "[]" True] p
  have g: "google_source basic_lib [None, Some []] [] = asc ''Google''" by simp
  from publisher_never_empty [of basic_lib "[None]" "[]" "[]" True] p c
  have "yahoo_source basic_lib [None] [] = asc ''Yahoo''"
    and "msn_source basic_lib [] True [None] [] = asc ''MSN''" by simp_all
  with g show ?thesis by simp
qed

section \<open>Properties of the retry loop\<close>

lemma api_call_sheets: "sheets (snd (api_call w)) = sheets w"
  by (simp add: api_call_def split: list.splits fault.splits)

lemma api_call_sheets': "api_call w = (r, w') \<Longrightarrow> sheets w' = sheets w"
  using api_call_sheets [of w] by simp

lemma get_worksheet_rel:
  "get_worksheet name w = (r, w') \<Longrightarrow> fresh_or_same name w w'"
  by (auto simp: get_worksheet_def fresh_or_same_def put_sheet_def
      split: prod.splits sum.splits option.splits dest!: api_call_sheets')

lemma get_worksheet_ok:
  "get_worksheet name w = (Inr u, w') \<Longrightarrow> sheets w' name \<noteq> None"
  by (auto simp: get_worksheet_def put_sheet_def
      split: prod.splits sum.splits option.splits dest!: api_call_sheets')

lemma fresh_or_same_trans:
  "fresh_or_same name w0 w1 \<Longrightarrow> fresh_or_same name w1 w2 \<Longrightarrow> fresh_or_same name w0 w2"
  by (auto simp: fresh_or_same_def split: option.splits)

lemma fresh_or_same_api: "api_call w = (r, w') \<Longrightarrow> fresh_or_same name w w'"
  by (auto simp: fresh_or_same_def split: option.splits dest!: api_call_sheets')

lemma attempt_fail:
  assumes "attempt articles name w = (Inl e, w')"
  shows "fresh_or_same name w w'"
proof -
  obtain r1 w1 where a1: "api_call w = (r1, w1)" by (cases "api_call w")
  obtain r2 w2 where a2: "get_worksheet name w1 = (r2, w2)" by (cases "get_worksheet name w1")
  obtain r3 w3 where a3: "api_call w2 = (r3, w3)" by (cases "api_call w2")
  obtain r4 w4 where a4: "api_call w3 = (r4, w4)" by (cases "api_call w3")
  note f1 = fresh_or_same_api [OF a1, of name]
  note f2 = fresh_or_same_trans [OF f1 get_worksheet_rel [OF a2]]
  note f3 = fresh_or_same_trans [OF f2 fresh_or_same_api [OF a3]]
  note f4 = fresh_or_same_trans [OF f3 fresh_or_same_api [OF a4]]
  from assms a1 a2 a3 a4 have "w' = w1 \<or> w' = w2 \<or> w' = w3 \<or> w' = w4"
    by (simp add: attempt_def Let_def split: sum.splits if_splits)
  with f1 f2 f3 f4 show ?thesis by blast
qed

lemma attempt_ok:
  assumes "attempt articles name w = (Inr u, w')"
  shows "\<exists>base. sheets w' name = Some (base @ new_rows articles (existing_urls base))
           \<and> (case sheets w name of Some r \<Rightarrow> base = r | None \<Rightarrow> base = [header])"
proof -
  obtain r1 w1 where a1: "api_call w = (r1, w1)" by (cases "api_call w")
  obtain r2 w2 where a2: "get_worksheet name w1 = (r2, w2)" by (cases "get_worksheet name w1")
  obtain r3 w3 where a3: "api_call w2 = (r3, w3)" by (cases "api_call w2")
  obtain r4 w4 where a4: "api_call w3 = (r4, w4)" by (cases "api_call w3")
  from assms a1 a2 have r2: "r2 = Inr ()"
    by (simp add: attempt_def split: sum.splits)
  from get_worksheet_ok a2 r2 obtain base where b: "sheets w2 name = Some base" by blast
  have s1: "sheets w1 = sheets w" using a1 by (rule api_call_sheets')
  have s3: "sheets w3 = sheets w2" using a3 by (rule api_call_sheets')
  have s4: "sheets w4 = sheets w3" using a4 by (rule api_call_sheets')
  have c: "(case sheets w name of Some r \<Rightarrow> base = r | None \<Rightarrow> base = [header])"
    using get_worksheet_rel [OF a2] b a2 r2 s1
    by (auto simp: fresh_or_same_def get_worksheet_def put_sheet_def
        split: option.splits prod.splits sum.splits dest!: api_call_sheets')
  from assms a1 a2 a3 a4 b s3 s4
  have "sheets w' name = Some (base @ new_rows articles (existing_urls base))"
    by (auto simp: attempt_def Let_def put_sheet_def split: sum.splits if_splits)
  with c show ?thesis by blast
qed


lemma retry_exhausted:
  "\<forall>i<n. fst (attempt articles name (after i articles name w)) = Inl APIError \<Longrightarrow>
     fst (retry n articles name w) = Inl RuntimeError"
proof (induction n arbitrary: w)
  case 0
  show ?case by simp
next
  case (Suc n)
  obtain r w' where a: "attempt articles name w = (r, w')" by (cases "attempt articles name w")
  from Suc.prems [rule_format, of 0] a have r: "r = Inl APIError" by simp
  have "\<forall>i<n. fst (attempt articles name (after i articles name w')) = Inl APIError"
    using Suc.prems [rule_format, of "Suc i" for i] a by simp
  from Suc.IH [OF this] a r show ?case by simp
qed

lemma retry_succeeds:
  "k < n \<Longrightarrow>
   \<forall>i<k. fst (attempt articles name (after i articles name w)) = Inl APIError \<Longrightarrow>
   fst (attempt articles name (after k articles name w)) = Inr u \<Longrightarrow>
   retry n articles name w = attempt articles name (after k articles name w)"
proof (induction k arbitrary: w n)
  case 0
  then obtain m where n: "n = Suc m" by (cases n) auto
  obtain r w' where a: "attempt articles name w = (r, w')" by (cases "attempt articles name w")
  with 0 n show ?case by simp
next
  case (Suc k)
  then obtain m where n: "n = Suc m" and km: "k < m" by (cases n) auto
  obtain r w' where a: "attempt articles name w = (r, w')" by (cases "attempt articles name w")
  from Suc.prems(2) [rule_format, of 0] a have r: "r = Inl APIError" by simp
  have p: "\<forall>i<k. fst (attempt articles name (after i articles name w')) = Inl APIError"
    using Suc.prems(2) [rule_format, of "Suc i" for i] a by simp
  have q: "fst (attempt articles name (after k articles name w')) = Inr u"
    using Suc.prems(3) a by simp
  from Suc.IH [OF km p q] a r n show ?case by simp
qed

lemma after_fresh_or_same:
  "\<forall>i<k. fst (attempt articles name (after i articles name w)) = Inl APIError \<Longrightarrow>
     fresh_or_same name w (after k articles name w)"
proof (induction k arbitrary: w)
  case 0
  show ?case by (simp add: fresh_or_same_def split: option.splits)
next
  case (Suc k)
  obtain r w' where a: "attempt articles name w = (r, w')" by (cases "attempt articles name w")
  from Suc.prems [rule_format, of 0] a have r: "r = Inl APIError" by simp
  have p: "\<forall>i<k. fst (attempt articles name (after i articles name w')) = Inl APIError"
    using Suc.prems [rule_format, of "Suc i" for i] a by simp
  from attempt_fail a r have "fresh_or_same name w w'" by blast
  from fresh_or_same_trans [OF this Suc.IH [OF p]] a show ?case by simp
qed

text \<open>
  The retry budget. When each of the five attempts ends in an API error,
  \<open>write_to_spreadsheet\<close> ends in the terminal \<open>RuntimeError\<close>. When the first \<open>k < 5\<close>
  attempts end in an API error and the next one succeeds, no error is raised and the
  worksheet then holds the rows it had (for a worksheet that did not exist: nothing, or the
  header row) followed, once, by the rows the code takes for new: those whose URL is in no
  row after the first.
\<close>

lemma retry_budget:
  "((\<forall>i<5. fst (attempt articles name (after i articles name w)) = Inl APIError) \<longrightarrow>
      fst (write_to_spreadsheet articles name w) = Inl RuntimeError)
   \<and> (k < 5 \<and> (\<forall>i<k. fst (attempt articles name (after i articles name w)) = Inl APIError)
        \<and> fst (attempt articles name (after k articles name w)) = Inr () \<longrightarrow>
      fst (write_to_spreadsheet articles name w) = Inr ()
      \<and> (\<exists>base. sheets (snd (write_to_spreadsheet articles name w)) name
                   = Some (base @ new_rows articles (existing_urls base))
            \<and> (case sheets w name of
                 Some rows \<Rightarrow> base = rows
               | None \<Rightarrow> base = [] \<or> base = [header])))"
proof (intro conjI impI)
  assume "\<forall>i<5. fst (attempt articles name (after i articles name w)) = Inl APIError"
  then show "fst (write_to_spreadsheet articles name w) = Inl RuntimeError"
    unfolding write_to_spreadsheet_def by (rule retry_exhausted)
next
  assume h: "k < 5 \<and> (\<forall>i<k. fst (attempt articles name (after i articles name w)) = Inl APIError)
        \<and> fst (attempt articles name (after k articles name w)) = Inr ()"
  let ?wk = "after k articles name w"
  from h have e: "write_to_spreadsheet articles name w = attempt articles name ?wk"
    unfolding write_to_spreadsheet_def by (intro retry_succeeds) auto
  with h show "fst (write_to_spreadsheet articles name w) = Inr ()" by simp
  obtain w' where a: "attempt articles name ?wk = (Inr (), w')"
    using h by (cases "attempt articles name ?wk") auto
  from attempt_ok [OF a] obtain base where
    b: "sheets w' name = Some (base @ new_rows articles (existing_urls base))" and
    c: "(case sheets ?wk name of Some r \<Rightarrow> base = r | None \<Rightarrow> base = [header])"
    by blast
  from h have f: "fresh_or_same name w ?wk" by (intro after_fresh_or_same) auto
  from c f have "(case sheets w name of Some rows \<Rightarrow> base = rows
               | None \<Rightarrow> base = [] \<or> base = [header])"
    by (auto simp: fresh_or_same_def split: option.splits)
  with b e a show "\<exists>base. sheets (snd (write_to_spreadsheet articles name w)) name
                   = Some (base @ new_rows articles (existing_urls base))
            \<and> (case sheets w name of
                 Some rows \<Rightarrow> base = rows
               | None \<Rightarrow> base = [] \<or> base = [header])"
    by auto
qed

lemma all_less_5: "(\<forall>i<5. P (i::nat)) = (P 0 \<and> P 1 \<and> P 2 \<and> P 3 \<and> P 4)"
  by (auto simp: eval_nat_numeral less_Suc_eq)

lemma all_less_2: "(\<forall>i<2. P (i::nat)) = (P 0 \<and> P 1)"
  by (auto simp: eval_nat_numeral less_Suc_eq)

lemmas eval_world = attempt_def get_worksheet_def api_call_def put_sheet_def
  write_to_spreadsheet_def art_def row_of_def existing_urls_def Let_def

lemma retry_budget_example:
  "fst (write_to_spreadsheet [art [67]] [77] w_fail) = Inl RuntimeError
   \<and> fst (write_to_spreadsheet [art [67]] [77] w_two) = Inr ()
   \<and> sheets (snd (write_to_spreadsheet [art [67]] [77] w_two)) [77] = Some [[[], [67], [], []]]"
proof -
  have f: "\<forall>i<5. fst (attempt [art [67]] [77] (after i [art [67]] [77] w_fail)) = Inl APIError"
    unfolding all_less_5 by (simp add: eval_world w_fail_def eval_nat_numeral)
  have t: "(2::nat) < 5 \<and> (\<forall>i<2. fst (attempt [art [67]] [77] (after i [art [67]] [77] w_two)) = Inl APIError)
        \<and> fst (attempt [art [67]] [77] (after 2 [art [67]] [77] w_two)) = Inr ()"
    unfolding all_less_2 by (simp add: eval_world w_two_def eval_nat_numeral)
  have s: "sheets (snd (write_to_spreadsheet [art [67]] [77] w_two)) [77] = Some [[[], [67], [], []]]"
    by (simp add: eval_world w_two_def eval_nat_numeral)
  from retry_budget [of "[art [67]]" "[77]" w_fail 0] f
    retry_budget [of "[art [67]]" "[77]" w_two 2] t s
  show ?thesis by blast
qed

text \<open>
  Claim C10, where the code departs from it. The header row is written only when the
  worksheet is created, and the rows read back are taken from the second on. A first run on
  a store without the worksheet, in which the write of the header fails once, returns
  normally and leaves the worksheet with the row of \<open>C\<close> and no header. On that store the
  next run with the same article fails once and then succeeds, and appends the row of \<open>C\<close>
  again, although its URL is stored: a row that is not new is appended.
\<close>

theorem write_appends_stored_url:
  "fst (write_to_spreadsheet [art_C] [77, 83, 78] w_missing) = Inr ()
   \<and> sheets (snd (write_to_spreadsheet [art_C] [77, 83, 78] w_missing)) = sheets w_headerless
   \<and> sheets w_headerless [77, 83, 78] = Some [row_of art_C]
   \<and> fst (attempt [art_C] [77, 83, 78] w_headerless) = Inl APIError
   \<and> fst (write_to_spreadsheet [art_C] [77, 83, 78] w_headerless) = Inr ()
   \<and> sheets (snd (write_to_spreadsheet [art_C] [77, 83, 78] w_headerless)) [77, 83, 78]
       = Some [row_of art_C, row_of art_C]"
  by (simp add: eval_world w_missing_def w_headerless_def art_C_def eval_nat_numeral)

section \<open>Properties of dates and of the format\<close>















lemma year_sum:
  fixes q a1 b1 c1 :: nat
  assumes "q \<le> 23" "a1 \<le> 4" "b1 \<le> 24" "c1 \<le> 4"
  shows "q * 400 + 1 + a1 * 100 + b1 * 4 + c1 < 10000"
  using assms by linarith








section \<open>Properties of parse_relative_time\<close>



















section \<open>Properties of the publication date\<close>




















end
